theory Spec2Isabelle
  imports Complex_Main "HOL-Library.Sublist"
begin

section \<open>Python values\<close>

text \<open>
  The values the program handles: what \<^verbatim>\<open>response.json()\<close> decodes (None, booleans,
  numbers, strings, lists, dictionaries with string keys) and the result dictionaries the
  functions build. A dictionary is an association list read with \<open>map_of\<close>. The value
  \<open>PNone\<close> is Python's \<^verbatim>\<open>None\<close>, which is also what a function returns when its body ends
  without a \<^verbatim>\<open>return\<close>.
\<close>

datatype pyval =
    PNone
  | PBool bool
  | PInt int
  | PFloat real
  | PStr string
  | PList "pyval list"
  | PDict "(string \<times> pyval) list"

section \<open>The requests library: responses and exceptions\<close>

text \<open>
  What \<^verbatim>\<open>response.json()\<close> does with the body of a response: the body decodes to a value;
  or it is not JSON, and the library raises its \<^verbatim>\<open>JSONDecodeError\<close> with the decoder's
  message; or it holds an integer literal of more than 4300 digits, and the decoder's
  \<^verbatim>\<open>ValueError\<close> comes through as it is; or it is nested too deep, and the decoder's
  \<^verbatim>\<open>RecursionError\<close> comes through as it is.
\<close>

datatype json_outcome =
    Decoded pyval
  | NotJSON string
  | IntTooLong
  | NestedTooDeep

text \<open>
  A response as the program reads it: the status code, the reason phrase and the URL (the
  last two only enter the text of the error \<^verbatim>\<open>raise_for_status\<close> raises), and what
  \<^verbatim>\<open>response.json()\<close> does with its body.
\<close>

record response =
  status_code :: int
  resp_reason :: string
  resp_url :: string
  json_result :: json_outcome

text \<open>
  The exception classes of \<^verbatim>\<open>requests.exceptions\<close>. The program imports
  \<^verbatim>\<open>ConnectionError\<close>, \<^verbatim>\<open>Timeout\<close>, \<^verbatim>\<open>HTTPError\<close> and \<^verbatim>\<open>RequestException\<close> from there and
  names \<^verbatim>\<open>requests.exceptions.JSONDecodeError\<close> (in \<^verbatim>\<open>validate_json_response\<close>), the class
  \<^verbatim>\<open>response.json()\<close> raises in the versions of the library that have it.
\<close>

datatype req_class =
    RequestException
  | InvalidJSONError
  | JSONDecodeError
  | HTTPError
  | ConnectionError
  | ProxyError
  | SSLError
  | Timeout
  | ConnectTimeout
  | ReadTimeout
  | URLRequired
  | TooManyRedirects
  | MissingSchema
  | InvalidSchema
  | InvalidURL
  | InvalidProxyURL
  | InvalidHeader
  | ChunkedEncodingError
  | ContentDecodingError
  | StreamConsumedError
  | RetryError
  | UnrewindableBodyError

text \<open>
  The classes of \<^verbatim>\<open>requests.exceptions\<close> each class derives from, itself first
  (\<^verbatim>\<open>class ConnectTimeout(ConnectionError, Timeout)\<close>,
  \<^verbatim>\<open>class ReadTimeout(Timeout)\<close>,
  \<^verbatim>\<open>class JSONDecodeError(InvalidJSONError, ...)\<close>, and so on; every class derives from
  \<^verbatim>\<open>RequestException\<close>).
\<close>

fun mro :: "req_class \<Rightarrow> req_class list" where
  "mro RequestException = [RequestException]"
| "mro JSONDecodeError = [JSONDecodeError, InvalidJSONError, RequestException]"
| "mro ProxyError = [ProxyError, ConnectionError, RequestException]"
| "mro SSLError = [SSLError, ConnectionError, RequestException]"
| "mro ConnectTimeout = [ConnectTimeout, ConnectionError, Timeout, RequestException]"
| "mro ReadTimeout = [ReadTimeout, Timeout, RequestException]"
| "mro InvalidProxyURL = [InvalidProxyURL, InvalidURL, RequestException]"
| "mro c = [c, RequestException]"

text \<open>
  An exception: an instance of a class of \<^verbatim>\<open>requests.exceptions\<close> with its \<^verbatim>\<open>str(e)\<close> and its
  \<^verbatim>\<open>e.response\<close> (which is \<^verbatim>\<open>None\<close> unless the raiser attached one), or one of the built-in
  exceptions, none of which derives from \<^verbatim>\<open>RequestException\<close>. \<open>ValueError\<close> is what
  the library raises on an argument it refuses (a timeout that is not positive), before any
  request is sent, what the JSON decoder raises on an integer literal that is too long, and
  what Python raises when it is to render an integer of more than 4300 digits.
\<close>

datatype exn =
    RequestsError req_class string "response option"
  | TypeError
  | KeyError
  | AttributeError
  | ValueError
  | RecursionError

text \<open>\<^verbatim>\<open>isinstance(e, c)\<close> for a class \<open>c\<close> of \<^verbatim>\<open>requests.exceptions\<close>: what an
  \<^verbatim>\<open>except c\<close> clause tests.\<close>

fun isinstance :: "exn \<Rightarrow> req_class \<Rightarrow> bool" where
  "isinstance (RequestsError k m r) c = (c \<in> set (mro k))"
| "isinstance e c = False"

section \<open>Formatting\<close>

text \<open>The decimal digits of an integer, with its sign: what \<^verbatim>\<open>str(n)\<close> is when it is
  defined.\<close>

definition digit_char :: "nat \<Rightarrow> char" where
  "digit_char d = char_of (48 + d)"

fun str_nat :: "nat \<Rightarrow> string" where
  "str_nat n = (if n < 10 then [digit_char n] else str_nat (n div 10) @ [digit_char (n mod 10)])"

declare str_nat.simps [simp del]

definition str_int :: "int \<Rightarrow> string" where
  "str_int i = (if i < 0 then ''-'' @ str_nat (nat (- i)) else str_nat (nat i))"

text \<open>
  An integer in an f-string: Python (3.11, with the default
  \<^verbatim>\<open>sys.get_int_max_str_digits()\<close> of 4300) raises \<^verbatim>\<open>ValueError\<close> when the integer has more
  than 4300 digits, the sign not counted, and renders it otherwise.
\<close>

definition int_max_str_digits :: nat where
  "int_max_str_digits = 4300"

definition py_format_int :: "int \<Rightarrow> exn + string" where
  "py_format_int i =
     (if 10 ^ int_max_str_digits \<le> \<bar>i\<bar> then Inl ValueError else Inr (str_int i))"

text \<open>
  \<^verbatim>\<open>repr\<close> of a string without quotes, backslashes or unprintable characters (the field
  names are such strings), and \<^verbatim>\<open>str\<close> of a list of them, as \<^verbatim>\<open>f"{missing}"\<close> renders it.
\<close>

definition py_repr_str :: "string \<Rightarrow> string" where
  "py_repr_str s = [CHR 0x27] @ s @ [CHR 0x27]"

fun join :: "string \<Rightarrow> string list \<Rightarrow> string" where
  "join sep [] = []"
| "join sep [x] = x"
| "join sep (x # y # ys) = x @ sep @ join sep (y # ys)"

definition py_str_list :: "string list \<Rightarrow> string" where
  "py_str_list xs = ''['' @ join '', '' (map py_repr_str xs) @ '']''"

text \<open>The two characters of the log messages outside ASCII, as their UTF-8 bytes.\<close>

definition rightwards_arrow :: string where
  "rightwards_arrow = [CHR 0xE2, CHR 0x86, CHR 0x92]"

definition em_dash :: string where
  "em_dash = [CHR 0xE2, CHR 0x80, CHR 0x94]"

section \<open>The world: transport, clock and log\<close>

text \<open>
  What \<^verbatim>\<open>requests.get(url, timeout=timeout)\<close> does: it raises, or it returns a response. The
  transport is a parameter: the outcome of the call number \<open>n\<close> (counted from 0) with a URL
  and a timeout, a whole number of seconds as in the defaults and the calls of the source.
  The world counts the calls made, the seconds slept, and keeps the log records in order.
\<close>

datatype outcome = Raises exn | Returns response

type_synonym transport = "nat \<Rightarrow> string \<Rightarrow> int \<Rightarrow> outcome"

datatype level = INFO | WARNING | ERROR | CRITICAL

record world =
  calls :: nat
  slept :: nat
  logged :: "(level \<times> string) list"

definition logging_info :: "string \<Rightarrow> world \<Rightarrow> world" where
  "logging_info msg w = w\<lparr>logged := logged w @ [(INFO, msg)]\<rparr>"

definition logging_warning :: "string \<Rightarrow> world \<Rightarrow> world" where
  "logging_warning msg w = w\<lparr>logged := logged w @ [(WARNING, msg)]\<rparr>"

definition logging_error :: "string \<Rightarrow> world \<Rightarrow> world" where
  "logging_error msg w = w\<lparr>logged := logged w @ [(ERROR, msg)]\<rparr>"

definition logging_critical :: "string \<Rightarrow> world \<Rightarrow> world" where
  "logging_critical msg w = w\<lparr>logged := logged w @ [(CRITICAL, msg)]\<rparr>"

definition time_sleep :: "nat \<Rightarrow> world \<Rightarrow> world" where
  "time_sleep s w = w\<lparr>slept := slept w + s\<rparr>"

definition requests_get :: "transport \<Rightarrow> string \<Rightarrow> int \<Rightarrow> world \<Rightarrow> outcome \<times> world" where
  "requests_get get url timeout w = (get (calls w) url timeout, w\<lparr>calls := Suc (calls w)\<rparr>)"

text \<open>
  \<^verbatim>\<open>response.raise_for_status()\<close>: an \<^verbatim>\<open>HTTPError\<close> carrying the response for a status from
  400 to 599, nothing otherwise.
\<close>

definition raise_for_status :: "response \<Rightarrow> exn + unit" where
  "raise_for_status r =
     (if 400 \<le> status_code r \<and> status_code r < 500 then
        Inl (RequestsError HTTPError
          (str_int (status_code r) @ '' Client Error: '' @ resp_reason r @ '' for url: '' @ resp_url r)
          (Some r))
      else if 500 \<le> status_code r \<and> status_code r < 600 then
        Inl (RequestsError HTTPError
          (str_int (status_code r) @ '' Server Error: '' @ resp_reason r @ '' for url: '' @ resp_url r)
          (Some r))
      else Inr ())"

text \<open>\<^verbatim>\<open>response.json()\<close>: the decoded body, or the exception that leaves the call: the
  library's \<^verbatim>\<open>JSONDecodeError\<close> with the decoder's message and no response attached, or the
  decoder's own \<^verbatim>\<open>ValueError\<close> or \<^verbatim>\<open>RecursionError\<close>.\<close>

definition response_json :: "response \<Rightarrow> exn + pyval" where
  "response_json r =
     (case json_result r of
        Decoded v \<Rightarrow> Inr v
      | NotJSON m \<Rightarrow> Inl (RequestsError JSONDecodeError m None)
      | IntTooLong \<Rightarrow> Inl ValueError
      | NestedTooDeep \<Rightarrow> Inl RecursionError)"

section \<open>The request functions\<close>

text \<open>
  The body of the \<^verbatim>\<open>try\<close> block, which is the same in \<^verbatim>\<open>safe_api_request\<close> and in
  \<^verbatim>\<open>safe_api_request_with_retry\<close>:
  \<^verbatim>\<open>
    response = requests.get(url, timeout=timeout)
    response.raise_for_status()
    logging.info("Request successful!")
    return {"success": True, "data": response.json()}
  \<close>
  \<open>Inl e\<close> is the exception the block raises, \<open>Inr v\<close> the value it returns.
\<close>

definition request_body :: "transport \<Rightarrow> string \<Rightarrow> int \<Rightarrow> world \<Rightarrow> (exn + pyval) \<times> world" where
  "request_body get url timeout w =
     (case requests_get get url timeout w of
        (Raises e, w1) \<Rightarrow> (Inl e, w1)
      | (Returns response, w1) \<Rightarrow>
          (case raise_for_status response of
             Inl e \<Rightarrow> (Inl e, w1)
           | Inr u \<Rightarrow>
               (let w2 = logging_info ''Request successful!'' w1 in
                case response_json response of
                  Inl e \<Rightarrow> (Inl e, w2)
                | Inr d \<Rightarrow> (Inr (PDict [(''success'', PBool True), (''data'', d)]), w2))))"

text \<open>
  \<^verbatim>\<open>safe_api_request(url, timeout=5)\<close>. The \<^verbatim>\<open>except\<close> clauses are tried in the order of the
  source; an exception none of them catches leaves the function (\<open>Inl\<close>), and so does the
  \<^verbatim>\<open>AttributeError\<close> of \<^verbatim>\<open>e.response.status_code\<close> when \<^verbatim>\<open>e.response\<close> is \<^verbatim>\<open>None\<close>. The two
  integers the clauses render are a status code, which has three digits, and the timeout
  of a request that timed out, which the library accepted: it refuses a timeout of more
  than 4300 digits before it sends anything. So they are rendered with \<open>str_int\<close>.
\<close>

definition safe_api_request :: "transport \<Rightarrow> string \<Rightarrow> int \<Rightarrow> world \<Rightarrow> (exn + pyval) \<times> world" where
  "safe_api_request get url timeout w =
     (let w0 = logging_info (''Requesting URL: '' @ url) w in
      case request_body get url timeout w0 of
        (Inr v, w1) \<Rightarrow> (Inr v, w1)
      | (Inl e, w1) \<Rightarrow>
          (case e of
             RequestsError k m resp \<Rightarrow>
               if isinstance e ConnectionError then
                 (Inr (PDict [(''success'', PBool False),
                              (''error'', PStr ''Connection failed. Check your internet.'')]),
                  logging_error ''Connection failed'' w1)
               else if isinstance e Timeout then
                 (Inr (PDict [(''success'', PBool False),
                              (''error'', PStr (''Request timed out after '' @ str_int timeout @ '' seconds.''))]),
                  logging_error ''Request timed out'' w1)
               else if isinstance e HTTPError then
                 (case resp of
                    None \<Rightarrow> (Inl AttributeError, w1)
                  | Some r \<Rightarrow>
                      (Inr (PDict [(''success'', PBool False),
                                   (''error'', PStr (''HTTP Error: '' @ str_int (status_code r)))]),
                       logging_error (''HTTP Error '' @ str_int (status_code r)) w1))
               else if isinstance e RequestException then
                 (Inr (PDict [(''success'', PBool False),
                              (''error'', PStr (''Request failed: '' @ m))]),
                  logging_error (''General request error: '' @ m) w1)
               else (Inl e, w1)
           | _ \<Rightarrow> (Inl e, w1)))"

text \<open>
  The loop of \<^verbatim>\<open>safe_api_request_with_retry\<close> over the attempts still to make. When the
  attempts run out the loop ends and the function ends after it without a \<^verbatim>\<open>return\<close>: the
  caller gets \<^verbatim>\<open>None\<close>. The first statement of the body, outside the \<^verbatim>\<open>try\<close>, renders
  \<^verbatim>\<open>attempt\<close> and \<^verbatim>\<open>retries\<close> in an f-string: a \<^verbatim>\<open>ValueError\<close> there leaves the function
  before any request. The later f-strings render the same two integers again, with the
  same outcome.
\<close>

fun retry_loop :: "transport \<Rightarrow> string \<Rightarrow> int \<Rightarrow> int \<Rightarrow> int list \<Rightarrow> world \<Rightarrow> (exn + pyval) \<times> world" where
  "retry_loop get url timeout retries [] w = (Inr PNone, w)"
| "retry_loop get url timeout retries (attempt # rest) w =
     (case py_format_int attempt of
        Inl x \<Rightarrow> (Inl x, w)
      | Inr attempt_str \<Rightarrow>
     (case py_format_int retries of
        Inl x \<Rightarrow> (Inl x, w)
      | Inr retries_str \<Rightarrow>
     (let w0 = logging_info (''Attempt '' @ attempt_str @ '' of '' @ retries_str @ '' ''
                  @ rightwards_arrow @ '' Requesting '' @ url) w in
      case request_body get url timeout w0 of
        (Inr v, w1) \<Rightarrow> (Inr v, w1)
      | (Inl e, w1) \<Rightarrow>
          (case e of
             RequestsError k m resp \<Rightarrow>
               if isinstance e ConnectionError \<or> isinstance e Timeout
                  \<or> isinstance e HTTPError \<or> isinstance e RequestException then
                 (let w2 = logging_error (''Error on attempt '' @ attempt_str @ '': '' @ m) w1 in
                  if attempt = retries then
                    (Inr (PDict [(''success'', PBool False),
                                 (''error'', PStr (''Failed after '' @ retries_str @ '' attempts: '' @ m))]),
                     logging_critical (''All retries failed '' @ em_dash @ '' returning error.'') w2)
                  else
                    retry_loop get url timeout retries rest
                      (time_sleep 1 (logging_warning ''Retrying in 1 second...'' w2)))
               else (Inl e, w1)
           | _ \<Rightarrow> (Inl e, w1)))))"

text \<open>\<^verbatim>\<open>safe_api_request_with_retry(url, timeout=5, retries=3)\<close>: the loop over
  \<^verbatim>\<open>range(1, retries + 1)\<close>.\<close>

definition safe_api_request_with_retry ::
    "transport \<Rightarrow> string \<Rightarrow> int \<Rightarrow> int \<Rightarrow> world \<Rightarrow> (exn + pyval) \<times> world" where
  "safe_api_request_with_retry get url timeout retries w =
     retry_loop get url timeout retries [1..retries] w"

section \<open>The validator\<close>

text \<open>
  \<^verbatim>\<open>key in container\<close> for a string key: key membership in a dictionary, element
  membership in a list, substring test in a string, and a \<^verbatim>\<open>TypeError\<close> for None, a
  boolean or a number.
\<close>

fun py_in :: "string \<Rightarrow> pyval \<Rightarrow> exn + bool" where
  "py_in k (PDict kvs) = Inr (map_of kvs k \<noteq> None)"
| "py_in k (PList xs) = Inr (PStr k \<in> set xs)"
| "py_in k (PStr s) = Inr (sublist k s)"
| "py_in k v = Inl TypeError"

text \<open>
  \<^verbatim>\<open>container[key]\<close> for a string key: the value in a dictionary (\<^verbatim>\<open>KeyError\<close> when the
  key is absent), a \<^verbatim>\<open>TypeError\<close> for everything else (a list and a string take integer
  indices, the rest cannot be subscripted).
\<close>

fun py_getitem :: "pyval \<Rightarrow> string \<Rightarrow> exn + pyval" where
  "py_getitem (PDict kvs) k = (case map_of kvs k of None \<Rightarrow> Inl KeyError | Some v \<Rightarrow> Inr v)"
| "py_getitem v k = Inl TypeError"

definition required_fields :: "string list" where
  "required_fields = [''price'', ''percent_change_24h'']"

text \<open>
  The comprehension \<^verbatim>\<open>[field for field in required_fields if field not in usd]\<close>, field by
  field; the first membership test that raises ends it.
\<close>

fun missing_fields :: "string list \<Rightarrow> pyval \<Rightarrow> exn + string list" where
  "missing_fields [] usd = Inr []"
| "missing_fields (field # others) usd =
     (case py_in field usd of
        Inl e \<Rightarrow> Inl e
      | Inr present \<Rightarrow>
          (case missing_fields others usd of
             Inl e \<Rightarrow> Inl e
           | Inr ms \<Rightarrow> Inr (if present then ms else field # ms)))"

text \<open>\<^verbatim>\<open>validate_crypto_data(data)\<close>. The source evaluates \<^verbatim>\<open>data["quotes"]\<close> and
  \<^verbatim>\<open>data["quotes"]["USD"]\<close> again at each use; the value is the same each time.\<close>

definition validate_crypto_data :: "pyval \<Rightarrow> world \<Rightarrow> (exn + pyval) \<times> world" where
  "validate_crypto_data data w =
     (let w0 = logging_info ''Validating crypto data structure...'' w in
      case py_in ''quotes'' data of
        Inl e \<Rightarrow> (Inl e, w0)
      | Inr has_quotes \<Rightarrow>
          if \<not> has_quotes then
            (Inr (PDict [(''valid'', PBool False), (''error'', PStr '''quotes' field missing'')]),
             logging_error ''Missing 'quotes' field'' w0)
          else
            (case py_getitem data ''quotes'' of
               Inl e \<Rightarrow> (Inl e, w0)
             | Inr quotes \<Rightarrow>
                 (case py_in ''USD'' quotes of
                    Inl e \<Rightarrow> (Inl e, w0)
                  | Inr has_usd \<Rightarrow>
                      if \<not> has_usd then
                        (Inr (PDict [(''valid'', PBool False),
                                     (''error'', PStr '''USD' field missing inside quotes'')]),
                         logging_error ''Missing 'USD' field inside quotes'' w0)
                      else
                        (case py_getitem quotes ''USD'' of
                           Inl e \<Rightarrow> (Inl e, w0)
                         | Inr usd \<Rightarrow>
                             (case missing_fields required_fields usd of
                                Inl e \<Rightarrow> (Inl e, w0)
                              | Inr missing \<Rightarrow>
                                  if missing \<noteq> [] then
                                    (Inr (PDict [(''valid'', PBool False),
                                                 (''error'', PStr (''Missing fields inside USD: '' @ py_str_list missing))]),
                                     logging_error (''Missing fields inside USD: '' @ py_str_list missing) w0)
                                  else
                                    (Inr (PDict [(''valid'', PBool True)]),
                                     logging_info ''Crypto data validated successfully'' w0))))))"

section \<open>Notions the properties are stated with\<close>


text \<open>A world in which nothing has happened yet.\<close>

definition world0 :: world where
  "world0 = \<lparr>calls = 0, slept = 0, logged = []\<rparr>"

text \<open>
  The presence of a path of keys, in the words of the specification: a key is present in
  a value when the value is a mapping that has the key. \<open>has_required_fields\<close> says that
  the payload has \<^verbatim>\<open>quotes.USD.price\<close> and \<^verbatim>\<open>quotes.USD.percent_change_24h\<close>.
\<close>

fun dict_lookup :: "pyval \<Rightarrow> string \<Rightarrow> pyval option" where
  "dict_lookup (PDict kvs) k = map_of kvs k"
| "dict_lookup v k = None"

definition has_key :: "pyval \<Rightarrow> string \<Rightarrow> bool" where
  "has_key v k = (dict_lookup v k \<noteq> None)"

definition has_required_fields :: "pyval \<Rightarrow> bool" where
  "has_required_fields data =
     (case dict_lookup data ''quotes'' of
        None \<Rightarrow> False
      | Some quotes \<Rightarrow>
          (case dict_lookup quotes ''USD'' of
             None \<Rightarrow> False
           | Some usd \<Rightarrow> has_key usd ''price'' \<and> has_key usd ''percent_change_24h''))"

text \<open>The values \<^verbatim>\<open>in\<close> accepts on its right: dictionaries, lists and strings.\<close>

fun supports_in :: "pyval \<Rightarrow> bool" where
  "supports_in (PDict kvs) = True"
| "supports_in (PList xs) = True"
| "supports_in (PStr s) = True"
| "supports_in v = False"

text \<open>The two shapes of a result: \<^verbatim>\<open>{"success": True, "data": d}\<close> and
  \<^verbatim>\<open>{"success": False, "error": m}\<close>.\<close>

definition success :: "pyval \<Rightarrow> pyval" where
  "success d = PDict [(''success'', PBool True), (''data'', d)]"

definition failure :: "string \<Rightarrow> pyval" where
  "failure m = PDict [(''success'', PBool False), (''error'', PStr m)]"

text \<open>
  What the \<^verbatim>\<open>try\<close> block makes of one outcome of the transport, the world left out
  (\<open>request_body_fst\<close> below relates it to \<open>request_body\<close>). An attempt fails when the block
  raises an exception the \<^verbatim>\<open>except\<close> clause of the retry loop catches, and
  \<open>failure_message\<close> is the \<^verbatim>\<open>str(e)\<close> of that exception; an attempt succeeds with \<open>d\<close> when
  the transport returns a response that passes the status check and decodes to \<open>d\<close>.
\<close>

definition body_result :: "outcome \<Rightarrow> exn + pyval" where
  "body_result out =
     (case out of
        Raises e \<Rightarrow> Inl e
      | Returns r \<Rightarrow>
          (case raise_for_status r of
             Inl e \<Rightarrow> Inl e
           | Inr u \<Rightarrow>
               (case response_json r of
                  Inl e \<Rightarrow> Inl e
                | Inr d \<Rightarrow> Inr (PDict [(''success'', PBool True), (''data'', d)]))))"

definition attempt_fails :: "outcome \<Rightarrow> bool" where
  "attempt_fails out =
     (case body_result out of Inl e \<Rightarrow> isinstance e RequestException | Inr v \<Rightarrow> False)"

definition failure_message :: "outcome \<Rightarrow> string" where
  "failure_message out =
     (case body_result out of Inl (RequestsError k m r) \<Rightarrow> m | _ \<Rightarrow> [])"

definition attempt_succeeds :: "outcome \<Rightarrow> pyval \<Rightarrow> bool" where
  "attempt_succeeds out d =
     (case out of
        Raises e \<Rightarrow> False
      | Returns r \<Rightarrow> raise_for_status r = Inr () \<and> json_result r = Decoded d)"

text \<open>
  A transport-level exception: an instance of \<^verbatim>\<open>RequestException\<close> as the library raises
  them, an \<^verbatim>\<open>HTTPError\<close> carrying the response it is about.
\<close>

fun transport_level :: "exn \<Rightarrow> bool" where
  "transport_level (RequestsError k m resp) = (HTTPError \<in> set (mro k) \<longrightarrow> resp \<noteq> None)"
| "transport_level e = False"

text \<open>An attempt is handled when the \<^verbatim>\<open>try\<close> block returns, or raises a transport-level
  exception.\<close>

definition attempt_handled :: "outcome \<Rightarrow> bool" where
  "attempt_handled out =
     (case body_result out of Inl e \<Rightarrow> transport_level e | Inr v \<Rightarrow> True)"

text \<open>
  The shape of a result mapping: it has the key \<^verbatim>\<open>success\<close> with a boolean; it has the key
  \<^verbatim>\<open>data\<close> exactly when that boolean is true and the key \<^verbatim>\<open>error\<close> exactly when it is false.
\<close>

fun result_invariant :: "pyval \<Rightarrow> bool" where
  "result_invariant (PDict kvs) =
     (case map_of kvs ''success'' of
        Some (PBool b) \<Rightarrow>
          (map_of kvs ''data'' \<noteq> None) = b \<and> (map_of kvs ''error'' \<noteq> None) = (\<not> b)
      | _ \<Rightarrow> False)"
| "result_invariant v = False"

text \<open>Transports for the concrete cases: each gives the outcome of every call.\<close>

definition always_read_timeout :: transport where
  "always_read_timeout n url timeout = Raises (RequestsError ReadTimeout ''Read timed out.'' None)"

definition connect_timeout :: transport where
  "connect_timeout n url timeout =
     Raises (RequestsError ConnectTimeout ''Connection timed out.'' None)"

definition fails_twice_then_succeeds :: transport where
  "fails_twice_then_succeeds n url timeout =
     (if n < 2 then Raises (RequestsError ConnectionError ''Connection refused'' None)
      else Returns \<lparr>status_code = 200, resp_reason = ''OK'', resp_url = url,
                    json_result = Decoded (PDict [(''id'', PInt 1)])\<rparr>)"

definition not_found :: transport where
  "not_found n url timeout =
     Returns \<lparr>status_code = 404, resp_reason = ''Not Found'', resp_url = url,
              json_result = Decoded (PDict [])\<rparr>"

definition status_600 :: transport where
  "status_600 n url timeout =
     Returns \<lparr>status_code = 600, resp_reason = ''Unknown'', resp_url = url,
              json_result = Decoded (PDict [])\<rparr>"

definition undecodable_body :: transport where
  "undecodable_body n url timeout =
     Returns \<lparr>status_code = 200, resp_reason = ''OK'', resp_url = url,
              json_result = NotJSON ''Expecting value: line 1 column 1 (char 0)''\<rparr>"

definition generic_request_error :: transport where
  "generic_request_error n url timeout =
     Raises (RequestsError RequestException ''Expecting value: line 1 column 1 (char 0)'' None)"

text \<open>A body that holds an integer literal of more than 4300 digits, and a transport of
  the library's refusal of a timeout that is not positive.\<close>

definition too_long_int_body :: transport where
  "too_long_int_body n url timeout =
     Returns \<lparr>status_code = 200, resp_reason = ''OK'', resp_url = url,
              json_result = IntTooLong\<rparr>"

definition refuses_timeout :: transport where
  "refuses_timeout n url timeout =
     (if timeout \<le> 0 then Raises ValueError
      else Returns \<lparr>status_code = 200, resp_reason = ''OK'', resp_url = url,
                    json_result = Decoded (PDict [])\<rparr>)"

section \<open>The validator: properties\<close>

lemma py_in_supports_in: "supports_in v \<longleftrightarrow> (\<exists>b. py_in k v = Inr b)"
  by (cases v) auto

lemma missing_fields_dict:
  "missing_fields fs (PDict us) = Inr (filter (\<lambda>f. map_of us f = None) fs)"
  by (induction fs) auto

lemma validate_valid_has_quotes:
  "fst (validate_crypto_data data w) = Inr (PDict [(''valid'', PBool True)]) \<Longrightarrow>
   \<exists>kvs q. data = PDict kvs \<and> map_of kvs ''quotes'' = Some q"
  by (cases data)
     (auto simp: validate_crypto_data_def Let_def split: sum.splits if_splits option.splits)

lemma validate_valid_has_usd:
  "map_of kvs ''quotes'' = Some q \<Longrightarrow>
   fst (validate_crypto_data (PDict kvs) w) = Inr (PDict [(''valid'', PBool True)]) \<Longrightarrow>
   \<exists>qs u. q = PDict qs \<and> map_of qs ''USD'' = Some u"
  by (cases q)
     (auto simp: validate_crypto_data_def Let_def split: sum.splits if_splits option.splits)

text \<open>On a payload whose \<^verbatim>\<open>quotes\<close> and \<^verbatim>\<open>USD\<close> entries are dictionaries the validator
  reaches the third tier and its result is the list of the missing fields.\<close>

lemma validate_usd_dict:
  "map_of kvs ''quotes'' = Some (PDict qs) \<Longrightarrow> map_of qs ''USD'' = Some (PDict us) \<Longrightarrow>
   fst (validate_crypto_data (PDict kvs) w) =
     (if filter (\<lambda>f. map_of us f = None) required_fields \<noteq> [] then
        Inr (PDict [(''valid'', PBool False),
                    (''error'', PStr (''Missing fields inside USD: ''
                        @ py_str_list (filter (\<lambda>f. map_of us f = None) required_fields)))])
      else Inr (PDict [(''valid'', PBool True)]))"
  by (simp add: validate_crypto_data_def Let_def missing_fields_dict)

text \<open>
  Claim C2, as stated, fails. On \<^verbatim>\<open>{"quotes": {"USD": 5}}\<close> the first two tiers pass and both
  required fields are absent, yet the validator returns no Invalid result: the membership
  test on the number raises \<^verbatim>\<open>TypeError\<close>. On
  \<^verbatim>\<open>{"quotes": {"USD": ["price", "percent_change_24h"]}}\<close> the validator returns Valid,
  because \<^verbatim>\<open>in\<close> on a list tests its elements, although the \<^verbatim>\<open>USD\<close> entry has no key at all.
\<close>

theorem validate_every_payload_counterexample:
  "dict_lookup (PDict [(''quotes'', PDict [(''USD'', PInt 5)])]) ''quotes''
      = Some (PDict [(''USD'', PInt 5)])
   \<and> dict_lookup (PDict [(''USD'', PInt 5)]) ''USD'' = Some (PInt 5)
   \<and> filter (\<lambda>f. \<not> has_key (PInt 5) f) required_fields = [''price'', ''percent_change_24h'']
   \<and> fst (validate_crypto_data (PDict [(''quotes'', PDict [(''USD'', PInt 5)])]) world0)
      = Inl TypeError
   \<and> fst (validate_crypto_data
        (PDict [(''quotes'', PDict [(''USD'', PList [PStr ''price'', PStr ''percent_change_24h''])])])
        world0)
      = Inr (PDict [(''valid'', PBool True)])
   \<and> \<not> has_required_fields
        (PDict [(''quotes'', PDict [(''USD'', PList [PStr ''price'', PStr ''percent_change_24h''])])])"
  by (simp add: validate_crypto_data_def required_fields_def has_key_def has_required_fields_def)

text \<open>
  Claim C2, amended: for every payload whose \<^verbatim>\<open>quotes.USD\<close> entry, where there is one, is a
  mapping, the validator returns Valid (\<^verbatim>\<open>{"valid": True}\<close>) if and only if the payload has
  \<^verbatim>\<open>quotes.USD.price\<close> and \<^verbatim>\<open>quotes.USD.percent_change_24h\<close>; and when the first two tiers
  pass and some required field is absent, the result is Invalid with the reason
  \<^verbatim>\<open>Missing fields inside USD: \<close> followed by the list of all the missing required fields,
  in the order price, percent_change_24h.
\<close>

theorem validate_valid_iff_required_fields:
  assumes "\<forall>q u. dict_lookup data ''quotes'' = Some q \<and> dict_lookup q ''USD'' = Some u
             \<longrightarrow> (\<exists>us. u = PDict us)"
  shows "(fst (validate_crypto_data data w) = Inr (PDict [(''valid'', PBool True)])
            \<longleftrightarrow> has_required_fields data)
       \<and> (\<forall>q u. dict_lookup data ''quotes'' = Some q \<and> dict_lookup q ''USD'' = Some u
             \<and> filter (\<lambda>f. \<not> has_key u f) required_fields \<noteq> []
           \<longrightarrow> fst (validate_crypto_data data w) =
                 Inr (PDict [(''valid'', PBool False),
                             (''error'', PStr (''Missing fields inside USD: ''
                                @ py_str_list (filter (\<lambda>f. \<not> has_key u f) required_fields)))]))"
proof (intro conjI allI impI)
  show "fst (validate_crypto_data data w) = Inr (PDict [(''valid'', PBool True)])
            \<longleftrightarrow> has_required_fields data"
  proof
    assume v: "fst (validate_crypto_data data w) = Inr (PDict [(''valid'', PBool True)])"
    from validate_valid_has_quotes [OF v] obtain kvs q
      where d: "data = PDict kvs" and q: "map_of kvs ''quotes'' = Some q" by blast
    from validate_valid_has_usd [OF q] v d obtain qs u
      where qd: "q = PDict qs" and u: "map_of qs ''USD'' = Some u" by blast
    from assms d q qd u obtain us where ud: "u = PDict us" by auto
    from validate_usd_dict [of kvs qs us w] q qd u ud v d
    show "has_required_fields data"
      by (auto simp: has_required_fields_def has_key_def required_fields_def split: if_splits)
  next
    assume h: "has_required_fields data"
    then obtain q u where q: "dict_lookup data ''quotes'' = Some q"
      and u: "dict_lookup q ''USD'' = Some u"
      and k: "has_key u ''price''" "has_key u ''percent_change_24h''"
      by (auto simp: has_required_fields_def split: option.splits)
    from assms q u obtain us where ud: "u = PDict us" by blast
    from q obtain kvs where d: "data = PDict kvs" by (cases data) auto
    from u obtain qs where qd: "q = PDict qs" by (cases q) auto
    from validate_usd_dict [of kvs qs us w] q u k d qd ud
    show "fst (validate_crypto_data data w) = Inr (PDict [(''valid'', PBool True)])"
      by (auto simp: has_key_def required_fields_def)
  qed
next
  fix q u
  assume a: "dict_lookup data ''quotes'' = Some q \<and> dict_lookup q ''USD'' = Some u
             \<and> filter (\<lambda>f. \<not> has_key u f) required_fields \<noteq> []"
  from assms a obtain us where ud: "u = PDict us" by blast
  from a obtain kvs where d: "data = PDict kvs" by (cases data) auto
  from a obtain qs where qd: "q = PDict qs" by (cases q) auto
  have "filter (\<lambda>f. \<not> has_key u f) required_fields
          = filter (\<lambda>f. map_of us f = None) required_fields"
    by (simp add: ud has_key_def)
  with validate_usd_dict [of kvs qs us w] a d qd ud
  show "fst (validate_crypto_data data w) =
                 Inr (PDict [(''valid'', PBool False),
                             (''error'', PStr (''Missing fields inside USD: ''
                                @ py_str_list (filter (\<lambda>f. \<not> has_key u f) required_fields)))])"
    by simp
qed

text \<open>
  The theorem at the payload of the specification's scenario, which is Valid, and at
  \<^verbatim>\<open>{"quotes": {"USD": {}}}\<close>, where both fields are missing and the reason names both.
\<close>

theorem validate_valid_iff_required_fields_witness:
  "has_required_fields
     (PDict [(''quotes'', PDict [(''USD'',
        PDict [(''price'', PFloat 50000), (''percent_change_24h'', PFloat 2.5)])])])
   \<and> fst (validate_crypto_data
        (PDict [(''quotes'', PDict [(''USD'',
           PDict [(''price'', PFloat 50000), (''percent_change_24h'', PFloat 2.5)])])]) world0)
       = Inr (PDict [(''valid'', PBool True)])
   \<and> fst (validate_crypto_data (PDict [(''quotes'', PDict [(''USD'', PDict [])])]) world0)
       = Inr (PDict [(''valid'', PBool False),
                     (''error'', PStr (''Missing fields inside USD: ''
                        @ ''['' @ [CHR 0x27] @ ''price'' @ [CHR 0x27] @ '', ''
                        @ [CHR 0x27] @ ''percent_change_24h'' @ [CHR 0x27] @ '']''))])"
  using validate_valid_iff_required_fields
          [of "PDict [(''quotes'', PDict [(''USD'',
                 PDict [(''price'', PFloat 50000), (''percent_change_24h'', PFloat 2.5)])])]" world0]
        validate_valid_iff_required_fields
          [of "PDict [(''quotes'', PDict [(''USD'', PDict [])])]" world0]
  by (simp add: has_required_fields_def has_key_def required_fields_def py_str_list_def
        py_repr_str_def)

text \<open>
  Claim C8, as stated, fails: the reasons the code returns quote the field name
  (\<^verbatim>\<open>'quotes' field missing\<close>), so the reason for the empty payload is not exactly
  \<^verbatim>\<open>quotes field missing\<close>.
\<close>

theorem validate_empty_payload_counterexample:
  "fst (validate_crypto_data (PDict []) world0)
     \<noteq> Inr (PDict [(''valid'', PBool False), (''error'', PStr ''quotes field missing'')])
   \<and> fst (validate_crypto_data (PDict [(''quotes'', PDict [])]) world0)
     \<noteq> Inr (PDict [(''valid'', PBool False), (''error'', PStr ''USD field missing inside quotes'')])"
  by (simp add: validate_crypto_data_def)

text \<open>
  Claim C8, amended: on the empty payload \<^verbatim>\<open>{}\<close> the validator returns Invalid with the
  reason exactly \<^verbatim>\<open>'quotes' field missing\<close>, and on \<^verbatim>\<open>{"quotes": {}}\<close> Invalid with the reason
  exactly \<^verbatim>\<open>'USD' field missing inside quotes\<close>, the field name in single quotes: the first
  missing tier is named.
\<close>

theorem validate_first_missing_tier:
  "fst (validate_crypto_data (PDict []) w)
     = Inr (PDict [(''valid'', PBool False), (''error'', PStr '''quotes' field missing'')])
   \<and> fst (validate_crypto_data (PDict [(''quotes'', PDict [])]) w)
     = Inr (PDict [(''valid'', PBool False),
                   (''error'', PStr '''USD' field missing inside quotes'')])"
  by (simp add: validate_crypto_data_def)

text \<open>
  Claim C10: there are payloads, mappings with a \<^verbatim>\<open>quotes\<close> key, on which the validator
  raises \<^verbatim>\<open>TypeError\<close> instead of returning a result: \<^verbatim>\<open>{"quotes": 5}\<close> and
  \<^verbatim>\<open>{"quotes": {"USD": 5}}\<close>. And whenever the validator returns a result on a mapping with
  a \<^verbatim>\<open>quotes\<close> key, the value at \<^verbatim>\<open>quotes\<close> supports membership tests, and so does the
  value at \<^verbatim>\<open>USD\<close> inside it when there is one.
\<close>

theorem validate_raises_type_error:
  "fst (validate_crypto_data (PDict [(''quotes'', PInt 5)]) w) = Inl TypeError
   \<and> fst (validate_crypto_data (PDict [(''quotes'', PDict [(''USD'', PInt 5)])]) w) = Inl TypeError
   \<and> (\<forall>kvs q r.
        map_of kvs ''quotes'' = Some q \<and> fst (validate_crypto_data (PDict kvs) w) = Inr r
        \<longrightarrow> supports_in q
            \<and> (\<forall>qs u. q = PDict qs \<and> map_of qs ''USD'' = Some u \<longrightarrow> supports_in u))"
proof (intro conjI allI impI)
  show "fst (validate_crypto_data (PDict [(''quotes'', PInt 5)]) w) = Inl TypeError"
    by (simp add: validate_crypto_data_def)
  show "fst (validate_crypto_data (PDict [(''quotes'', PDict [(''USD'', PInt 5)])]) w)
          = Inl TypeError"
    by (simp add: validate_crypto_data_def required_fields_def)
next
  fix kvs q r
  assume "map_of kvs ''quotes'' = Some q \<and> fst (validate_crypto_data (PDict kvs) w) = Inr r"
  then show "supports_in q"
    by (cases q) (auto simp: validate_crypto_data_def Let_def split: sum.splits if_splits)
next
  fix kvs q r qs u
  assume "map_of kvs ''quotes'' = Some q \<and> fst (validate_crypto_data (PDict kvs) w) = Inr r"
    and "q = PDict qs \<and> map_of qs ''USD'' = Some u"
  then show "supports_in u"
    by (cases u)
       (auto simp: validate_crypto_data_def Let_def required_fields_def
             split: sum.splits if_splits)
qed

text \<open>The theorem at \<^verbatim>\<open>{"quotes": {"USD": {}}}\<close>, on which the validator returns a result.\<close>

theorem validate_raises_type_error_witness:
  "map_of [(''quotes'', PDict [(''USD'', PDict [])])] ''quotes'' = Some (PDict [(''USD'', PDict [])])
   \<and> (\<exists>r. fst (validate_crypto_data (PDict [(''quotes'', PDict [(''USD'', PDict [])])]) world0) = Inr r)
   \<and> supports_in (PDict [(''USD'', PDict [])])
   \<and> supports_in (PDict [])
   \<and> fst (validate_crypto_data (PDict [(''quotes'', PInt 5)]) world0) = Inl TypeError"
  using validate_raises_type_error [of world0]
  by (simp add: validate_crypto_data_def required_fields_def)

section \<open>The request functions: properties\<close>

subsection \<open>One attempt\<close>

lemma mro_RequestException [simp]: "RequestException \<in> set (mro k)"
  by (cases k) simp_all

lemma str_int_values:
  "str_int 0 = ''0''" "str_int 1 = ''1''" "str_int 3 = ''3''" "str_int 5 = ''5''"
  "str_int 404 = ''404''"
  by code_simp+

lemma logging_calls [simp]:
  "calls (logging_info m w) = calls w" "calls (logging_error m w) = calls w"
  "calls (logging_warning m w) = calls w" "calls (logging_critical m w) = calls w"
  "calls (time_sleep n w) = calls w"
  by (simp_all add: logging_info_def logging_error_def logging_warning_def
        logging_critical_def time_sleep_def)

lemma logging_slept [simp]:
  "slept (logging_info m w) = slept w" "slept (logging_error m w) = slept w"
  "slept (logging_warning m w) = slept w" "slept (logging_critical m w) = slept w"
  "slept (time_sleep n w) = slept w + n"
  by (simp_all add: logging_info_def logging_error_def logging_warning_def
        logging_critical_def time_sleep_def)

lemma request_body_fst:
  "fst (request_body get url timeout w) = body_result (get (calls w) url timeout)"
  by (simp add: request_body_def requests_get_def body_result_def Let_def
           split: outcome.splits sum.splits)

lemma request_body_calls:
  "calls (snd (request_body get url timeout w)) = Suc (calls w)"
  by (simp add: request_body_def requests_get_def Let_def logging_info_def
           split: outcome.splits sum.splits)

lemma request_body_slept:
  "slept (snd (request_body get url timeout w)) = slept w"
  by (simp add: request_body_def requests_get_def Let_def logging_info_def
           split: outcome.splits sum.splits)

lemma body_result_shape:
  "body_result out = Inr v \<Longrightarrow> \<exists>d. v = success d"
  by (auto simp: body_result_def success_def split: outcome.splits sum.splits)

lemma attempt_succeeds_body:
  "attempt_succeeds out d \<Longrightarrow> body_result out = Inr (success d)"
  by (auto simp: attempt_succeeds_def body_result_def response_json_def success_def
           split: outcome.splits)

lemma body_result_http_error:
  "400 \<le> status_code r \<Longrightarrow> status_code r < 600 \<Longrightarrow>
   \<exists>m. body_result (Returns r) = Inl (RequestsError HTTPError m (Some r))"
  by (auto simp: body_result_def raise_for_status_def)

text \<open>The three ways \<^verbatim>\<open>safe_api_request\<close> ends: the block returns, the block raises an
  exception of the library, or it raises another one.\<close>

lemma safe_api_request_returns:
  assumes "body_result (get (calls w) url timeout) = Inr v"
  shows "fst (safe_api_request get url timeout w) = Inr v"
proof -
  let ?w0 = "logging_info (''Requesting URL: '' @ url) w"
  obtain x w1 where rb: "request_body get url timeout ?w0 = (x, w1)"
    by (cases "request_body get url timeout ?w0")
  from request_body_fst [of get url timeout ?w0] rb assms have "x = Inr v" by simp
  with rb show ?thesis by (simp add: safe_api_request_def Let_def)
qed

lemma safe_api_request_builtin:
  assumes "body_result (get (calls w) url timeout) = Inl e"
    and "\<forall>k m r. e \<noteq> RequestsError k m r"
  shows "fst (safe_api_request get url timeout w) = Inl e"
proof -
  let ?w0 = "logging_info (''Requesting URL: '' @ url) w"
  obtain x w1 where rb: "request_body get url timeout ?w0 = (x, w1)"
    by (cases "request_body get url timeout ?w0")
  from request_body_fst [of get url timeout ?w0] rb assms(1) have "x = Inl e" by simp
  with rb assms(2) show ?thesis by (cases e) (simp_all add: safe_api_request_def Let_def)
qed

lemma safe_api_request_handles:
  assumes "body_result (get (calls w) url timeout) = Inl (RequestsError k m resp)"
  shows "fst (safe_api_request get url timeout w) =
     (if ConnectionError \<in> set (mro k) then
        Inr (failure ''Connection failed. Check your internet.'')
      else if Timeout \<in> set (mro k) then
        Inr (failure (''Request timed out after '' @ str_int timeout @ '' seconds.''))
      else if HTTPError \<in> set (mro k) then
        (case resp of
           None \<Rightarrow> Inl AttributeError
         | Some r \<Rightarrow> Inr (failure (''HTTP Error: '' @ str_int (status_code r))))
      else Inr (failure (''Request failed: '' @ m)))"
proof -
  let ?w0 = "logging_info (''Requesting URL: '' @ url) w"
  obtain x w1 where rb: "request_body get url timeout ?w0 = (x, w1)"
    by (cases "request_body get url timeout ?w0")
  from request_body_fst [of get url timeout ?w0] rb assms
  have "x = Inl (RequestsError k m resp)" by simp
  with rb show ?thesis
    by (simp add: safe_api_request_def Let_def failure_def split: option.splits)
qed

lemma safe_api_request_http_error:
  assumes "get (calls w) url timeout = Returns r" "400 \<le> status_code r" "status_code r < 600"
  shows "fst (safe_api_request get url timeout w)
           = Inr (failure (''HTTP Error: '' @ str_int (status_code r)))"
proof -
  from body_result_http_error [OF assms(2,3)] assms(1) obtain m
    where "body_result (get (calls w) url timeout) = Inl (RequestsError HTTPError m (Some r))"
    by auto
  from safe_api_request_handles
         [where get = get and w = w and url = url and timeout = timeout] this
  show ?thesis by simp
qed

lemma safe_api_request_propagates:
  assumes "fst (safe_api_request get url timeout w) = Inl x"
  shows "\<not> isinstance x RequestException"
proof (cases "body_result (get (calls w) url timeout)")
  case (Inr v)
  from safe_api_request_returns
         [where get = get and w = w and url = url and timeout = timeout] Inr assms
  show ?thesis by simp
next
  case (Inl e)
  show ?thesis
  proof (cases e)
    case (RequestsError k m resp)
    with Inl have "body_result (get (calls w) url timeout) = Inl (RequestsError k m resp)"
      by simp
    from safe_api_request_handles
           [where get = get and w = w and url = url and timeout = timeout] this assms
    show ?thesis
      by (auto split: if_splits option.splits)
  qed (use Inl assms safe_api_request_builtin [of get w url timeout e] in auto)
qed

subsection \<open>Rendering integers\<close>

lemma py_format_int_ok:
  "\<bar>i\<bar> < 10 ^ int_max_str_digits \<Longrightarrow> py_format_int i = Inr (str_int i)"
  by (simp add: py_format_int_def)

lemma py_format_int_limit:
  "py_format_int (10 ^ int_max_str_digits) = Inl ValueError"
  by (simp add: py_format_int_def)

lemma py_format_int_error: "py_format_int i = Inl x \<Longrightarrow> x = ValueError"
  by (auto simp: py_format_int_def split: if_splits)

lemma below_ten_below_limit: "\<bar>i\<bar> < 10 \<Longrightarrow> \<bar>i\<bar> < (10::int) ^ int_max_str_digits"
proof -
  assume a: "\<bar>i\<bar> < 10"
  have "(10::int) ^ 1 \<le> 10 ^ int_max_str_digits"
    by (rule power_increasing) (simp_all add: int_max_str_digits_def)
  with a show ?thesis by simp
qed

lemma one_below_limit: "(1::int) < 10 ^ int_max_str_digits"
  using below_ten_below_limit [of 1] by simp

lemma py_format_int_small: "\<bar>i\<bar> < 10 \<Longrightarrow> py_format_int i = Inr (str_int i)"
  by (rule py_format_int_ok) (rule below_ten_below_limit)

subsection \<open>The retry loop\<close>

text \<open>One turn of the loop when both integers can be rendered: the attempt succeeds, it
  fails and is the last one, or it fails and another follows after a pause of one second.
  And the turn when the retry count cannot be rendered.\<close>

lemma retry_loop_success:
  assumes "body_result (get (calls w) url timeout) = Inr v"
    and "\<bar>a\<bar> < 10 ^ int_max_str_digits" and "\<bar>N\<bar> < 10 ^ int_max_str_digits"
  shows "fst (retry_loop get url timeout N (a # rest) w) = Inr v
       \<and> calls (snd (retry_loop get url timeout N (a # rest) w)) = Suc (calls w)
       \<and> slept (snd (retry_loop get url timeout N (a # rest) w)) = slept w"
proof -
  let ?w0 = "logging_info (''Attempt '' @ str_int a @ '' of '' @ str_int N @ '' ''
                  @ rightwards_arrow @ '' Requesting '' @ url) w"
  obtain x w1 where rb: "request_body get url timeout ?w0 = (x, w1)"
    by (cases "request_body get url timeout ?w0")
  from request_body_fst [of get url timeout ?w0] rb assms(1) have x: "x = Inr v" by simp
  from request_body_calls [of get url timeout ?w0] rb have c: "calls w1 = Suc (calls w)" by simp
  from request_body_slept [of get url timeout ?w0] rb have s: "slept w1 = slept w" by simp
  show ?thesis using rb x c s
    by (simp add: Let_def py_format_int_ok [OF assms(2)] py_format_int_ok [OF assms(3)])
qed

lemma retry_loop_fail_last:
  assumes "attempt_fails (get (calls w) url timeout)"
    and "\<bar>N\<bar> < 10 ^ int_max_str_digits"
  shows "fst (retry_loop get url timeout N (N # rest) w) =
           Inr (PDict [(''success'', PBool False),
                       (''error'', PStr (''Failed after '' @ str_int N @ '' attempts: ''
                          @ failure_message (get (calls w) url timeout)))])
       \<and> calls (snd (retry_loop get url timeout N (N # rest) w)) = Suc (calls w)
       \<and> slept (snd (retry_loop get url timeout N (N # rest) w)) = slept w"
proof -
  let ?w0 = "logging_info (''Attempt '' @ str_int N @ '' of '' @ str_int N @ '' ''
                  @ rightwards_arrow @ '' Requesting '' @ url) w"
  obtain x w1 where rb: "request_body get url timeout ?w0 = (x, w1)"
    by (cases "request_body get url timeout ?w0")
  from request_body_fst [of get url timeout ?w0] rb
  have x: "x = body_result (get (calls w) url timeout)" by simp
  with assms(1) obtain k m r where e: "x = Inl (RequestsError k m r)"
    by (auto simp: attempt_fails_def split: sum.splits elim: isinstance.elims)
  from x e have "body_result (get (calls w) url timeout) = Inl (RequestsError k m r)" by simp
  then have fm: "failure_message (get (calls w) url timeout) = m"
    by (simp add: failure_message_def)
  from request_body_calls [of get url timeout ?w0] rb have c: "calls w1 = Suc (calls w)" by simp
  from request_body_slept [of get url timeout ?w0] rb have s: "slept w1 = slept w" by simp
  show ?thesis using rb e c s fm
    by (simp add: Let_def py_format_int_ok [OF assms(2)])
qed

lemma retry_loop_fail_step:
  assumes "attempt_fails (get (calls w) url timeout)" and "a \<noteq> N"
    and "\<bar>a\<bar> < 10 ^ int_max_str_digits" and "\<bar>N\<bar> < 10 ^ int_max_str_digits"
  shows "\<exists>w'. retry_loop get url timeout N (a # rest) w = retry_loop get url timeout N rest w'
            \<and> calls w' = Suc (calls w) \<and> slept w' = Suc (slept w)"
proof -
  let ?w0 = "logging_info (''Attempt '' @ str_int a @ '' of '' @ str_int N @ '' ''
                  @ rightwards_arrow @ '' Requesting '' @ url) w"
  obtain x w1 where rb: "request_body get url timeout ?w0 = (x, w1)"
    by (cases "request_body get url timeout ?w0")
  from request_body_fst [of get url timeout ?w0] rb
  have x: "x = body_result (get (calls w) url timeout)" by simp
  with assms(1) obtain k m r where e: "x = Inl (RequestsError k m r)"
    by (auto simp: attempt_fails_def split: sum.splits elim: isinstance.elims)
  from request_body_calls [of get url timeout ?w0] rb have c: "calls w1 = Suc (calls w)" by simp
  from request_body_slept [of get url timeout ?w0] rb have s: "slept w1 = slept w" by simp
  show ?thesis using rb e c s assms(2)
    apply (simp add: Let_def py_format_int_ok [OF assms(3)] py_format_int_ok [OF assms(4)])
    apply (intro exI conjI)
      apply (rule refl)
     apply simp_all
    done
qed

lemma retry_loop_cannot_render:
  assumes "\<bar>a\<bar> < 10 ^ int_max_str_digits" and "10 ^ int_max_str_digits \<le> \<bar>N\<bar>"
  shows "retry_loop get url timeout N (a # rest) w = (Inl ValueError, w)"
  using assms by (simp add: py_format_int_def)

text \<open>The loop over the attempts \<open>a, ..., N\<close> when all of them fail, by induction on their
  number.\<close>

lemma retry_loop_all_fail:
  "0 \<le> a \<Longrightarrow> a \<le> N \<Longrightarrow> N < 10 ^ int_max_str_digits \<Longrightarrow> n = nat (N - a) \<Longrightarrow>
   (\<forall>i\<le>n. attempt_fails (get (calls w + i) url timeout)) \<Longrightarrow>
   fst (retry_loop get url timeout N [a..N] w) =
       Inr (PDict [(''success'', PBool False),
                   (''error'', PStr (''Failed after '' @ str_int N @ '' attempts: ''
                      @ failure_message (get (calls w + n) url timeout)))])
   \<and> calls (snd (retry_loop get url timeout N [a..N] w)) = calls w + n + 1
   \<and> slept (snd (retry_loop get url timeout N [a..N] w)) = slept w + n"
proof (induction n arbitrary: a w)
  case 0
  then have "a = N" by simp
  then have l: "[a..N] = N # []" by (simp add: upto_rec1)
  from 0 have rN: "\<bar>N\<bar> < 10 ^ int_max_str_digits" by simp
  from 0 have "attempt_fails (get (calls w) url timeout)" by simp
  with retry_loop_fail_last [where get = get and w = w and url = url and timeout = timeout
         and N = N and rest = "[]"] l rN
  show ?case by simp
next
  case (Suc n)
  then have lt: "a < N" by simp
  then have l: "[a..N] = a # [a + 1..N]" by (simp add: upto_rec1)
  from Suc.prems lt have ra: "\<bar>a\<bar> < 10 ^ int_max_str_digits"
    and rN: "\<bar>N\<bar> < 10 ^ int_max_str_digits" by simp_all
  from Suc.prems have f0: "attempt_fails (get (calls w) url timeout)" by force
  from retry_loop_fail_step [where get = get and w = w and url = url and timeout = timeout
         and a = a and N = N and rest = "[a + 1..N]"] f0 lt ra rN obtain w'
    where st: "retry_loop get url timeout N (a # [a + 1..N]) w
                 = retry_loop get url timeout N [a + 1..N] w'"
      and c: "calls w' = Suc (calls w)" and s: "slept w' = Suc (slept w)" by auto
  have "\<forall>i\<le>n. attempt_fails (get (calls w' + i) url timeout)"
  proof (intro allI impI)
    fix i assume "i \<le> n"
    then have "Suc i \<le> Suc n" by simp
    with Suc.prems(5) have "attempt_fails (get (calls w + Suc i) url timeout)" by blast
    then show "attempt_fails (get (calls w' + i) url timeout)" by (simp add: c)
  qed
  moreover have "0 \<le> a + 1" "a + 1 \<le> N" "n = nat (N - (a + 1))" using lt Suc.prems by simp_all
  ultimately have ih:
   "fst (retry_loop get url timeout N [a + 1..N] w') =
       Inr (PDict [(''success'', PBool False),
                   (''error'', PStr (''Failed after '' @ str_int N @ '' attempts: ''
                      @ failure_message (get (calls w' + n) url timeout)))])
   \<and> calls (snd (retry_loop get url timeout N [a + 1..N] w')) = calls w' + n + 1
   \<and> slept (snd (retry_loop get url timeout N [a + 1..N] w')) = slept w' + n"
    using Suc.IH [of "a + 1" w'] Suc.prems(3) by blast
  show ?case using ih st l c s by simp
qed

text \<open>The loop when \<open>j\<close> attempts fail and the next one succeeds, by induction on \<open>j\<close>.\<close>

lemma retry_loop_fail_then_success:
  "0 \<le> a \<Longrightarrow> a + int j \<le> N \<Longrightarrow> N < 10 ^ int_max_str_digits \<Longrightarrow>
   (\<forall>i<j. attempt_fails (get (calls w + i) url timeout)) \<Longrightarrow>
   body_result (get (calls w + j) url timeout) = Inr v \<Longrightarrow>
   fst (retry_loop get url timeout N [a..N] w) = Inr v
   \<and> calls (snd (retry_loop get url timeout N [a..N] w)) = calls w + j + 1
   \<and> slept (snd (retry_loop get url timeout N [a..N] w)) = slept w + j"
proof (induction j arbitrary: a w)
  case 0
  then have l: "[a..N] = a # [a + 1..N]" by (simp add: upto_rec1)
  from 0 have ra: "\<bar>a\<bar> < 10 ^ int_max_str_digits"
    and rN: "\<bar>N\<bar> < 10 ^ int_max_str_digits" by simp_all
  from 0 have "body_result (get (calls w) url timeout) = Inr v" by simp
  with retry_loop_success [where get = get and w = w and url = url and timeout = timeout
         and v = v and N = N and a = a and rest = "[a + 1..N]"] l ra rN
  show ?case by simp
next
  case (Suc j)
  then have lt: "a < N" by simp
  then have l: "[a..N] = a # [a + 1..N]" by (simp add: upto_rec1)
  from Suc.prems lt have ra: "\<bar>a\<bar> < 10 ^ int_max_str_digits"
    and rN: "\<bar>N\<bar> < 10 ^ int_max_str_digits" by simp_all
  from Suc.prems have f0: "attempt_fails (get (calls w) url timeout)" by force
  from retry_loop_fail_step [where get = get and w = w and url = url and timeout = timeout
         and a = a and N = N and rest = "[a + 1..N]"] f0 lt ra rN obtain w'
    where st: "retry_loop get url timeout N (a # [a + 1..N]) w
                 = retry_loop get url timeout N [a + 1..N] w'"
      and c: "calls w' = Suc (calls w)" and s: "slept w' = Suc (slept w)" by auto
  have "\<forall>i<j. attempt_fails (get (calls w' + i) url timeout)"
  proof (intro allI impI)
    fix i assume "i < j"
    then have "Suc i < Suc j" by simp
    with Suc.prems(4) have "attempt_fails (get (calls w + Suc i) url timeout)" by blast
    then show "attempt_fails (get (calls w' + i) url timeout)" by (simp add: c)
  qed
  moreover have "0 \<le> a + 1" "a + 1 + int j \<le> N" using Suc.prems by simp_all
  moreover have "body_result (get (calls w' + j) url timeout) = Inr v"
    using Suc.prems(5) by (simp add: c)
  ultimately have ih:
   "fst (retry_loop get url timeout N [a + 1..N] w') = Inr v
   \<and> calls (snd (retry_loop get url timeout N [a + 1..N] w')) = calls w' + j + 1
   \<and> slept (snd (retry_loop get url timeout N [a + 1..N] w')) = slept w' + j"
    using Suc.IH [of "a + 1" w'] Suc.prems(3) by blast
  show ?case using ih st l c s by simp
qed

text \<open>What the loop returns or raises, whatever the attempts left, by induction on
  them.\<close>

lemma retry_loop_propagates:
  "fst (retry_loop get url timeout N xs w) = Inl x \<Longrightarrow> \<not> isinstance x RequestException"
proof (induction xs arbitrary: w)
  case Nil
  then show ?case by simp
next
  case (Cons a xs)
  show ?case
  proof (cases "py_format_int a")
    case (Inl z)
    with Cons.prems py_format_int_error [OF Inl] show ?thesis by simp
  next
    case fa: (Inr sa)
    show ?thesis
    proof (cases "py_format_int N")
      case (Inl z)
      with Cons.prems fa py_format_int_error [OF Inl] show ?thesis by simp
    next
      case fN: (Inr sN)
      let ?w0 = "logging_info (''Attempt '' @ sa @ '' of '' @ sN @ '' ''
                      @ rightwards_arrow @ '' Requesting '' @ url) w"
      obtain y w1 where rb: "request_body get url timeout ?w0 = (y, w1)"
        by (cases "request_body get url timeout ?w0")
      show ?thesis
      proof (cases y)
        case (Inr v)
        with rb fa fN Cons.prems show ?thesis by (simp add: Let_def)
      next
        case (Inl e)
        show ?thesis
        proof (cases e)
          case (RequestsError k m resp)
          with Inl rb fa fN Cons.prems Cons.IH show ?thesis
            by (auto simp: Let_def split: if_splits)
        qed (use Inl rb fa fN Cons.prems in \<open>auto simp: Let_def\<close>)
      qed
    qed
  qed
qed

lemma retry_loop_invariant:
  "fst (retry_loop get url timeout N xs w) = Inr v \<Longrightarrow> v = PNone \<or> result_invariant v"
proof (induction xs arbitrary: w)
  case Nil
  then show ?case by simp
next
  case (Cons a xs)
  show ?case
  proof (cases "py_format_int a")
    case (Inl z)
    with Cons.prems show ?thesis by simp
  next
    case fa: (Inr sa)
    show ?thesis
    proof (cases "py_format_int N")
      case (Inl z)
      with Cons.prems fa show ?thesis by simp
    next
      case fN: (Inr sN)
      let ?w0 = "logging_info (''Attempt '' @ sa @ '' of '' @ sN @ '' ''
                      @ rightwards_arrow @ '' Requesting '' @ url) w"
      obtain y w1 where rb: "request_body get url timeout ?w0 = (y, w1)"
        by (cases "request_body get url timeout ?w0")
      show ?thesis
      proof (cases y)
        case (Inr u)
        from request_body_fst [of get url timeout ?w0] rb Inr
        have "body_result (get (calls w) url timeout) = Inr u" by simp
        then have "result_invariant u"
          by (auto simp: body_result_def split: outcome.splits sum.splits)
        with Inr rb fa fN Cons.prems show ?thesis by (simp add: Let_def)
      next
        case (Inl e)
        show ?thesis
        proof (cases e)
          case (RequestsError k m resp)
          with Inl rb fa fN Cons.prems Cons.IH show ?thesis
            by (auto simp: Let_def split: if_splits)
        qed (use Inl rb fa fN Cons.prems in \<open>auto simp: Let_def\<close>)
      qed
    qed
  qed
qed

lemma retry_loop_not_none:
  "xs \<noteq> [] \<Longrightarrow> last xs = N \<Longrightarrow> fst (retry_loop get url timeout N xs w) \<noteq> Inr PNone"
proof (induction xs arbitrary: w)
  case Nil
  then show ?case by simp
next
  case (Cons a xs)
  show ?case
  proof (cases "py_format_int a")
    case (Inl z)
    then show ?thesis by simp
  next
    case fa: (Inr sa)
    show ?thesis
    proof (cases "py_format_int N")
      case (Inl z)
      with fa show ?thesis by simp
    next
      case fN: (Inr sN)
      let ?w0 = "logging_info (''Attempt '' @ sa @ '' of '' @ sN @ '' ''
                      @ rightwards_arrow @ '' Requesting '' @ url) w"
      obtain y w1 where rb: "request_body get url timeout ?w0 = (y, w1)"
        by (cases "request_body get url timeout ?w0")
      show ?thesis
      proof (cases y)
        case (Inr u)
        from request_body_fst [of get url timeout ?w0] rb Inr
        have "body_result (get (calls w) url timeout) = Inr u" by simp
        then have "u \<noteq> PNone"
          by (auto simp: body_result_def split: outcome.splits sum.splits)
        with Inr rb fa fN show ?thesis by (simp add: Let_def)
      next
        case (Inl e)
        show ?thesis
        proof (cases e)
          case (RequestsError k m resp)
          show ?thesis
          proof (cases "xs = []")
            case True
            with Cons.prems have "a = N" by simp
            with Inl rb fa fN RequestsError show ?thesis by (simp add: Let_def)
          next
            case False
            with Cons.prems have "last xs = N" by simp
            from Cons.IH [OF False this] Inl rb fa fN RequestsError show ?thesis
              by (simp add: Let_def)
          qed
        qed (use Inl rb fa fN in \<open>auto simp: Let_def\<close>)
      qed
    qed
  qed
qed

subsection \<open>The claims about the request functions\<close>

text \<open>
  Claim C1, as stated, fails: with a retry count of 0 the loop body never runs, the
  function ends without a \<^verbatim>\<open>return\<close>, and the caller gets \<^verbatim>\<open>None\<close>, not a failure result.
\<close>

theorem retry_zero_returns_none_counterexample:
  "fst (safe_api_request_with_retry always_read_timeout ''https://example.org/'' 5 0 world0)
     = Inr PNone"
  by (simp add: safe_api_request_with_retry_def)

text \<open>
  Claim C1, amended: for every URL and timeout, calling the retrying execution with a
  retry count of 0 or less makes no attempt (no request is sent, nothing is logged, no
  pause is taken: the world is unchanged) and returns \<^verbatim>\<open>None\<close>, Python's absent result.
\<close>

theorem retry_non_positive_makes_no_attempt:
  "retries \<le> 0 \<Longrightarrow> safe_api_request_with_retry get url timeout retries w = (Inr PNone, w)"
  by (simp add: safe_api_request_with_retry_def)

theorem retry_non_positive_makes_no_attempt_witness:
  "(0::int) \<le> 0 \<and> (- 2::int) \<le> 0
   \<and> safe_api_request_with_retry always_read_timeout ''https://example.org/'' 5 0 world0
       = (Inr PNone, world0)
   \<and> safe_api_request_with_retry always_read_timeout ''https://example.org/'' 5 (- 2) world0
       = (Inr PNone, world0)"
  using retry_non_positive_makes_no_attempt
          [of 0 always_read_timeout "''https://example.org/''" 5 world0]
        retry_non_positive_makes_no_attempt
          [of "- 2" always_read_timeout "''https://example.org/''" 5 world0]
  by simp

text \<open>
  Claim C3, as stated, fails for a retry count of more than 4300 digits: the first
  statement of the loop renders \<^verbatim>\<open>retries\<close> in its log line, Python raises \<^verbatim>\<open>ValueError\<close>
  there, and the function ends with that exception before any attempt, though every
  attempt of the transport would fail.
\<close>

theorem retry_count_too_long_counterexample:
  "(1::int) \<le> 10 ^ int_max_str_digits
   \<and> attempt_fails (always_read_timeout 0 ''https://example.org/'' 5)
   \<and> safe_api_request_with_retry always_read_timeout ''https://example.org/'' 5
        (10 ^ int_max_str_digits) world0
       = (Inl ValueError, world0)"
proof -
  have le: "(1::int) \<le> 10 ^ int_max_str_digits" by simp
  then have "[1..10 ^ int_max_str_digits] = 1 # [1 + 1..10 ^ int_max_str_digits]"
    by (rule upto_rec1)
  moreover have "\<bar>1::int\<bar> < 10 ^ int_max_str_digits" using one_below_limit by simp
  moreover have "(10::int) ^ int_max_str_digits \<le> \<bar>10 ^ int_max_str_digits\<bar>" by simp
  ultimately have "safe_api_request_with_retry always_read_timeout ''https://example.org/'' 5
        (10 ^ int_max_str_digits) world0 = (Inl ValueError, world0)"
    by (simp only: safe_api_request_with_retry_def retry_loop_cannot_render)
  moreover have "attempt_fails (always_read_timeout 0 ''https://example.org/'' 5)"
    by (simp add: always_read_timeout_def attempt_fails_def body_result_def)
  ultimately show ?thesis using le by simp
qed

text \<open>
  Claim C3, amended: for every transport whose first \<open>retries\<close> attempts all fail, and every
  positive retry count of at most 4300 digits (below \<open>10 ^ 4300\<close>), the retrying execution
  makes exactly \<open>retries\<close> calls of the transport (pausing one second between two attempts)
  and returns the failure whose message is \<^verbatim>\<open>Failed after <retries> attempts: \<close> followed by
  the message of the last attempt's exception.
\<close>

theorem retry_all_attempts_fail:
  assumes "1 \<le> retries" and "retries < 10 ^ int_max_str_digits"
    and "\<forall>i<nat retries. attempt_fails (get (calls w + i) url timeout)"
  shows "fst (safe_api_request_with_retry get url timeout retries w) =
           Inr (failure (''Failed after '' @ str_int retries @ '' attempts: ''
                  @ failure_message (get (calls w + (nat retries - 1)) url timeout)))
       \<and> calls (snd (safe_api_request_with_retry get url timeout retries w))
           = calls w + nat retries
       \<and> slept (snd (safe_api_request_with_retry get url timeout retries w))
           = slept w + (nat retries - 1)"
proof -
  from assms have "\<forall>i\<le>nat (retries - 1). attempt_fails (get (calls w + i) url timeout)"
    by auto
  with retry_loop_all_fail [where a = 1 and N = retries and n = "nat (retries - 1)"
          and get = get and w = w and url = url and timeout = timeout] assms(1,2)
  have "fst (retry_loop get url timeout retries [1..retries] w) =
       Inr (PDict [(''success'', PBool False),
                   (''error'', PStr (''Failed after '' @ str_int retries @ '' attempts: ''
                      @ failure_message (get (calls w + nat (retries - 1)) url timeout)))])
   \<and> calls (snd (retry_loop get url timeout retries [1..retries] w))
       = calls w + nat (retries - 1) + 1
   \<and> slept (snd (retry_loop get url timeout retries [1..retries] w))
       = slept w + nat (retries - 1)"
    by simp
  moreover have "nat (retries - 1) = nat retries - 1" by simp
  moreover have "nat (retries - 1) + 1 = nat retries" using assms(1) by simp
  ultimately show ?thesis
    by (simp add: safe_api_request_with_retry_def failure_def)
qed

text \<open>The theorem for a transport that always times out and three attempts.\<close>

theorem retry_all_attempts_fail_witness:
  "(1::int) \<le> 3 \<and> (3::int) < 10 ^ int_max_str_digits
   \<and> attempt_fails (always_read_timeout 2 ''https://example.org/'' 5)
   \<and> fst (safe_api_request_with_retry always_read_timeout ''https://example.org/'' 5 3 world0)
       = Inr (failure ''Failed after 3 attempts: Read timed out.'')
   \<and> calls (snd (safe_api_request_with_retry always_read_timeout ''https://example.org/'' 5 3 world0))
       = 3
   \<and> slept (snd (safe_api_request_with_retry always_read_timeout ''https://example.org/'' 5 3 world0))
       = 2"
  using retry_all_attempts_fail [of 3 always_read_timeout world0 "''https://example.org/''" 5]
        below_ten_below_limit [of 3]
  by (simp add: always_read_timeout_def attempt_fails_def body_result_def failure_message_def
        world0_def str_int_values)

text \<open>
  Claim C4, as stated, fails for a retry count of more than 4300 digits: the transport
  fails twice and succeeds on attempt 3, and 3 is below the retry count, yet the function
  ends with the \<^verbatim>\<open>ValueError\<close> of its first log line and makes no attempt.
\<close>

theorem retry_success_count_too_long_counterexample:
  "attempt_fails (fails_twice_then_succeeds 0 ''https://example.org/'' 5)
   \<and> attempt_fails (fails_twice_then_succeeds 1 ''https://example.org/'' 5)
   \<and> attempt_succeeds (fails_twice_then_succeeds 2 ''https://example.org/'' 5)
        (PDict [(''id'', PInt 1)])
   \<and> (3::int) \<le> 10 ^ int_max_str_digits
   \<and> safe_api_request_with_retry fails_twice_then_succeeds ''https://example.org/'' 5
        (10 ^ int_max_str_digits) world0
       = (Inl ValueError, world0)"
proof -
  have le: "(1::int) \<le> 10 ^ int_max_str_digits" by simp
  then have "[1..10 ^ int_max_str_digits] = 1 # [1 + 1..10 ^ int_max_str_digits]"
    by (rule upto_rec1)
  moreover have "\<bar>1::int\<bar> < 10 ^ int_max_str_digits" using one_below_limit by simp
  moreover have "(10::int) ^ int_max_str_digits \<le> \<bar>10 ^ int_max_str_digits\<bar>" by simp
  ultimately have "safe_api_request_with_retry fails_twice_then_succeeds ''https://example.org/'' 5
        (10 ^ int_max_str_digits) world0 = (Inl ValueError, world0)"
    by (simp only: safe_api_request_with_retry_def retry_loop_cannot_render)
  moreover have "(3::int) \<le> 10 ^ int_max_str_digits"
    using below_ten_below_limit [of 3] by simp
  moreover have "attempt_fails (fails_twice_then_succeeds 0 ''https://example.org/'' 5)"
    "attempt_fails (fails_twice_then_succeeds 1 ''https://example.org/'' 5)"
    "attempt_succeeds (fails_twice_then_succeeds 2 ''https://example.org/'' 5)
        (PDict [(''id'', PInt 1)])"
    by (simp_all add: fails_twice_then_succeeds_def attempt_fails_def attempt_succeeds_def
          body_result_def raise_for_status_def)
  ultimately show ?thesis by simp
qed

text \<open>
  Claim C4, amended: for every transport that fails on the attempts 1 to \<open>k - 1\<close> and
  succeeds on attempt \<open>k\<close>, with \<open>k\<close> at most the retry count and the retry count of at most
  4300 digits (below \<open>10 ^ 4300\<close>), the retrying execution makes exactly \<open>k\<close> calls of the
  transport and returns the success result that carries exactly the payload the response
  of attempt \<open>k\<close> decodes to.
\<close>

theorem retry_succeeds_on_attempt_k:
  assumes "1 \<le> k" and "int k \<le> retries" and "retries < 10 ^ int_max_str_digits"
    and "\<forall>i<k - 1. attempt_fails (get (calls w + i) url timeout)"
    and "attempt_succeeds (get (calls w + (k - 1)) url timeout) d"
  shows "fst (safe_api_request_with_retry get url timeout retries w) = Inr (success d)
       \<and> calls (snd (safe_api_request_with_retry get url timeout retries w)) = calls w + k
       \<and> slept (snd (safe_api_request_with_retry get url timeout retries w))
           = slept w + (k - 1)"
proof -
  from assms(5) have b: "body_result (get (calls w + (k - 1)) url timeout) = Inr (success d)"
    by (rule attempt_succeeds_body)
  have "1 + int (k - 1) \<le> retries" using assms(1,2) by simp
  with retry_loop_fail_then_success [where a = 1 and j = "k - 1" and N = retries
          and get = get and w = w and url = url and timeout = timeout and v = "success d"]
       assms(3,4) b
  have "fst (retry_loop get url timeout retries [1..retries] w) = Inr (success d)
   \<and> calls (snd (retry_loop get url timeout retries [1..retries] w)) = calls w + (k - 1) + 1
   \<and> slept (snd (retry_loop get url timeout retries [1..retries] w)) = slept w + (k - 1)"
    by simp
  then show ?thesis using assms(1) by (simp add: safe_api_request_with_retry_def)
qed

text \<open>The theorem for a transport that fails twice and then succeeds, with five attempts
  allowed: three calls are made.\<close>

theorem retry_succeeds_on_attempt_k_witness:
  "(5::int) < 10 ^ int_max_str_digits
   \<and> attempt_fails (fails_twice_then_succeeds 1 ''https://example.org/'' 5)
   \<and> attempt_succeeds (fails_twice_then_succeeds 2 ''https://example.org/'' 5)
        (PDict [(''id'', PInt 1)])
   \<and> fst (safe_api_request_with_retry fails_twice_then_succeeds ''https://example.org/'' 5 5 world0)
      = Inr (success (PDict [(''id'', PInt 1)]))
   \<and> calls (snd (safe_api_request_with_retry fails_twice_then_succeeds ''https://example.org/'' 5 5 world0))
      = 3
   \<and> slept (snd (safe_api_request_with_retry fails_twice_then_succeeds ''https://example.org/'' 5 5 world0))
      = 2"
  using retry_succeeds_on_attempt_k
          [of 3 5 fails_twice_then_succeeds world0 "''https://example.org/''" 5
              "PDict [(''id'', PInt 1)]"]
        below_ten_below_limit [of 5]
  by (simp add: fails_twice_then_succeeds_def attempt_fails_def attempt_succeeds_def
        body_result_def raise_for_status_def world0_def)

text \<open>
  Claim C5, as stated, fails: the code has no decode-error kind. A body that is not JSON
  makes \<^verbatim>\<open>response.json()\<close> raise a \<^verbatim>\<open>JSONDecodeError\<close>, which only the last clause,
  \<^verbatim>\<open>except RequestException\<close>, catches: the result is the one of any other request error
  with the same message. And a body with an integer literal of more than 4300 digits
  makes it raise a plain \<^verbatim>\<open>ValueError\<close>, which no clause catches: no result is returned.
\<close>

theorem decode_failure_counterexample:
  "fst (safe_api_request undecodable_body ''https://example.org/'' 5 world0)
     = Inr (failure ''Request failed: Expecting value: line 1 column 1 (char 0)'')
   \<and> fst (safe_api_request undecodable_body ''https://example.org/'' 5 world0)
     = fst (safe_api_request generic_request_error ''https://example.org/'' 5 world0)
   \<and> fst (safe_api_request too_long_int_body ''https://example.org/'' 5 world0)
     = Inl ValueError"
  by (simp add: safe_api_request_def request_body_def requests_get_def raise_for_status_def
        response_json_def undecodable_body_def generic_request_error_def
        too_long_int_body_def world0_def logging_info_def Let_def failure_def)

text \<open>
  Claim C5, amended: for every single attempt whose transport returns a response with a
  status below 400 and a body that fails to decode: if the body is not JSON, the result is
  the failure of the general request-error clause, \<^verbatim>\<open>Request failed: \<close> followed by the
  decoder's message; if the decoder raises \<^verbatim>\<open>ValueError\<close> (an integer literal of more than
  4300 digits) or \<^verbatim>\<open>RecursionError\<close> (a body nested too deep), that exception leaves the
  executor and no result is returned. The decoding comes last: the log holds
  \<^verbatim>\<open>Request successful!\<close>, written once the status check has passed, before the error; and
  with a status from 400 to 599 the result is the HTTP error whatever the body.
\<close>

theorem decode_failure_is_request_failure:
  "(\<forall>r m. get (calls w) url timeout = Returns r \<and> status_code r < 400
          \<and> json_result r = NotJSON m
      \<longrightarrow> safe_api_request get url timeout w =
            (Inr (failure (''Request failed: '' @ m)),
             w\<lparr>calls := Suc (calls w),
               logged := logged w @ [(INFO, ''Requesting URL: '' @ url),
                                     (INFO, ''Request successful!''),
                                     (ERROR, ''General request error: '' @ m)]\<rparr>))
   \<and> (\<forall>r. get (calls w) url timeout = Returns r \<and> status_code r < 400
          \<and> json_result r = IntTooLong
      \<longrightarrow> safe_api_request get url timeout w =
            (Inl ValueError,
             w\<lparr>calls := Suc (calls w),
               logged := logged w @ [(INFO, ''Requesting URL: '' @ url),
                                     (INFO, ''Request successful!'')]\<rparr>))
   \<and> (\<forall>r. get (calls w) url timeout = Returns r \<and> status_code r < 400
          \<and> json_result r = NestedTooDeep
      \<longrightarrow> safe_api_request get url timeout w =
            (Inl RecursionError,
             w\<lparr>calls := Suc (calls w),
               logged := logged w @ [(INFO, ''Requesting URL: '' @ url),
                                     (INFO, ''Request successful!'')]\<rparr>))
   \<and> (\<forall>r. get (calls w) url timeout = Returns r \<and> 400 \<le> status_code r \<and> status_code r < 600
      \<longrightarrow> fst (safe_api_request get url timeout w) =
            Inr (failure (''HTTP Error: '' @ str_int (status_code r))))"
proof (intro conjI allI impI)
  fix r m
  assume "get (calls w) url timeout = Returns r \<and> status_code r < 400
          \<and> json_result r = NotJSON m"
  then show "safe_api_request get url timeout w =
            (Inr (failure (''Request failed: '' @ m)),
             w\<lparr>calls := Suc (calls w),
               logged := logged w @ [(INFO, ''Requesting URL: '' @ url),
                                     (INFO, ''Request successful!''),
                                     (ERROR, ''General request error: '' @ m)]\<rparr>)"
    by (simp add: safe_api_request_def request_body_def requests_get_def raise_for_status_def
          response_json_def logging_info_def logging_error_def Let_def failure_def)
next
  fix r
  assume "get (calls w) url timeout = Returns r \<and> status_code r < 400
          \<and> json_result r = IntTooLong"
  then show "safe_api_request get url timeout w =
            (Inl ValueError,
             w\<lparr>calls := Suc (calls w),
               logged := logged w @ [(INFO, ''Requesting URL: '' @ url),
                                     (INFO, ''Request successful!'')]\<rparr>)"
    by (simp add: safe_api_request_def request_body_def requests_get_def raise_for_status_def
          response_json_def logging_info_def Let_def)
next
  fix r
  assume "get (calls w) url timeout = Returns r \<and> status_code r < 400
          \<and> json_result r = NestedTooDeep"
  then show "safe_api_request get url timeout w =
            (Inl RecursionError,
             w\<lparr>calls := Suc (calls w),
               logged := logged w @ [(INFO, ''Requesting URL: '' @ url),
                                     (INFO, ''Request successful!'')]\<rparr>)"
    by (simp add: safe_api_request_def request_body_def requests_get_def raise_for_status_def
          response_json_def logging_info_def Let_def)
next
  fix r
  assume "get (calls w) url timeout = Returns r \<and> 400 \<le> status_code r \<and> status_code r < 600"
  then show "fst (safe_api_request get url timeout w) =
            Inr (failure (''HTTP Error: '' @ str_int (status_code r)))"
    using safe_api_request_http_error [of get w url timeout r] by simp
qed

text \<open>The theorem for a body that is not JSON, for a body with an integer that is too
  long, and for a 404 response.\<close>

theorem decode_failure_is_request_failure_witness:
  "undecodable_body (calls world0) ''https://example.org/'' 5 =
      Returns \<lparr>status_code = 200, resp_reason = ''OK'', resp_url = ''https://example.org/'',
              json_result = NotJSON ''Expecting value: line 1 column 1 (char 0)''\<rparr>
   \<and> safe_api_request undecodable_body ''https://example.org/'' 5 world0 =
        (Inr (failure ''Request failed: Expecting value: line 1 column 1 (char 0)''),
         \<lparr>calls = 1, slept = 0,
          logged = [(INFO, ''Requesting URL: https://example.org/''),
                    (INFO, ''Request successful!''),
                    (ERROR, ''General request error: Expecting value: line 1 column 1 (char 0)'')]\<rparr>)
   \<and> safe_api_request too_long_int_body ''https://example.org/'' 5 world0 =
        (Inl ValueError,
         \<lparr>calls = 1, slept = 0,
          logged = [(INFO, ''Requesting URL: https://example.org/''),
                    (INFO, ''Request successful!'')]\<rparr>)
   \<and> fst (safe_api_request not_found ''https://example.org/'' 5 world0)
        = Inr (failure ''HTTP Error: 404'')"
  using decode_failure_is_request_failure [of undecodable_body world0 "''https://example.org/''" 5]
        decode_failure_is_request_failure [of too_long_int_body world0 "''https://example.org/''" 5]
        decode_failure_is_request_failure [of not_found world0 "''https://example.org/''" 5]
  by (simp add: undecodable_body_def too_long_int_body_def not_found_def world0_def
        str_int_values)

text \<open>
  Claim C6, as stated, fails: the single-attempt executor is not total. The clauses catch
  the exceptions of the library only, so the \<^verbatim>\<open>ValueError\<close> the library raises for a
  timeout of 0 leaves the executor, and so does the decoder's \<^verbatim>\<open>ValueError\<close> for a body
  with an integer literal of more than 4300 digits.
\<close>

theorem safe_api_request_raises_counterexample:
  "fst (safe_api_request refuses_timeout ''https://example.org/'' 0 world0) = Inl ValueError
   \<and> fst (safe_api_request too_long_int_body ''https://example.org/'' 5 world0)
       = Inl ValueError"
  by (simp add: safe_api_request_def request_body_def requests_get_def raise_for_status_def
        response_json_def refuses_timeout_def too_long_int_body_def world0_def
        logging_info_def Let_def)

text \<open>
  Claim C6, amended: for every URL, timeout and transport, no exception of the library (no
  instance of \<^verbatim>\<open>RequestException\<close>) leaves the single-attempt executor, nor the retrying
  one; the single-attempt executor returns a result exactly when the attempt is handled,
  that is, when the transport returns a response that fails the status check or whose body
  decodes or is not JSON, or raises a transport-level exception; and the result is then a
  success, or a failure of one of the four kinds (connection failed, timed out, HTTP
  error, request failed). On every other outcome an exception leaves the executor.
\<close>

theorem no_request_exception_propagates:
  "(\<forall>x. fst (safe_api_request get url timeout w) = Inl x \<longrightarrow> \<not> isinstance x RequestException)
   \<and> (\<forall>x. fst (safe_api_request_with_retry get url timeout retries w) = Inl x
         \<longrightarrow> \<not> isinstance x RequestException)
   \<and> ((\<exists>v. fst (safe_api_request get url timeout w) = Inr v)
         \<longleftrightarrow> attempt_handled (get (calls w) url timeout))
   \<and> (attempt_handled (get (calls w) url timeout)
       \<longrightarrow> (\<exists>d. fst (safe_api_request get url timeout w) = Inr (success d))
         \<or> fst (safe_api_request get url timeout w)
              = Inr (failure ''Connection failed. Check your internet.'')
         \<or> fst (safe_api_request get url timeout w)
              = Inr (failure (''Request timed out after '' @ str_int timeout @ '' seconds.''))
         \<or> (\<exists>n. fst (safe_api_request get url timeout w)
                   = Inr (failure (''HTTP Error: '' @ str_int n)))
         \<or> (\<exists>m. fst (safe_api_request get url timeout w)
                   = Inr (failure (''Request failed: '' @ m))))"
proof -
  let ?R = "fst (safe_api_request get url timeout w)"
  let ?out = "get (calls w) url timeout"
  have forms: "(\<exists>d. ?R = Inr (success d))
         \<or> ?R = Inr (failure ''Connection failed. Check your internet.'')
         \<or> ?R = Inr (failure (''Request timed out after '' @ str_int timeout @ '' seconds.''))
         \<or> (\<exists>n. ?R = Inr (failure (''HTTP Error: '' @ str_int n)))
         \<or> (\<exists>m. ?R = Inr (failure (''Request failed: '' @ m)))"
    if a: "attempt_handled ?out"
  proof (cases "body_result ?out")
    case (Inr v)
    then obtain d where "v = success d"
      using body_result_shape by blast
    with safe_api_request_returns
           [where get = get and w = w and url = url and timeout = timeout] Inr
    show ?thesis by auto
  next
    case (Inl e)
    with a have "transport_level e" by (simp add: attempt_handled_def)
    then obtain k m resp where e: "e = RequestsError k m resp"
      and h: "HTTPError \<in> set (mro k) \<longrightarrow> resp \<noteq> None"
      by (cases e) auto
    from safe_api_request_handles
           [where get = get and w = w and url = url and timeout = timeout
              and k = k and m = m and resp = resp] Inl e h
    show ?thesis by (auto split: if_splits option.splits)
  qed
  have returns: "attempt_handled ?out" if r: "?R = Inr v" for v
  proof (cases "body_result ?out")
    case (Inr u)
    then show ?thesis by (simp add: attempt_handled_def)
  next
    case (Inl e)
    show ?thesis
    proof (cases e)
      case (RequestsError k m resp)
      have only: "HTTPError \<in> set (mro k) \<Longrightarrow> k = HTTPError" by (cases k) simp_all
      from safe_api_request_handles
             [where get = get and w = w and url = url and timeout = timeout
                and k = k and m = m and resp = resp] Inl RequestsError r
      have "HTTPError \<in> set (mro k) \<longrightarrow> resp \<noteq> None"
        using only by (auto split: if_splits option.splits)
      with Inl RequestsError show ?thesis by (simp add: attempt_handled_def)
    qed (use Inl r safe_api_request_builtin [of get w url timeout e] in auto)
  qed
  show ?thesis
  proof (intro conjI allI impI)
    fix x assume "?R = Inl x"
    then show "\<not> isinstance x RequestException" by (rule safe_api_request_propagates)
  next
    fix x assume "fst (safe_api_request_with_retry get url timeout retries w) = Inl x"
    then show "\<not> isinstance x RequestException"
      unfolding safe_api_request_with_retry_def by (rule retry_loop_propagates)
  next
    show "(\<exists>v. ?R = Inr v) \<longleftrightarrow> attempt_handled ?out"
    proof
      assume "\<exists>v. ?R = Inr v"
      then show "attempt_handled ?out" using returns by blast
    next
      assume "attempt_handled ?out"
      from forms [OF this] show "\<exists>v. ?R = Inr v" by auto
    qed
  next
    assume "attempt_handled ?out"
    then show "(\<exists>d. ?R = Inr (success d))
         \<or> ?R = Inr (failure ''Connection failed. Check your internet.'')
         \<or> ?R = Inr (failure (''Request timed out after '' @ str_int timeout @ '' seconds.''))
         \<or> (\<exists>n. ?R = Inr (failure (''HTTP Error: '' @ str_int n)))
         \<or> (\<exists>m. ?R = Inr (failure (''Request failed: '' @ m)))"
      by (rule forms)
  qed
qed

text \<open>The theorem for a read timeout and for a body that is not JSON, which are handled,
  and for the refused timeout, which is not.\<close>

theorem no_request_exception_propagates_witness:
  "attempt_handled (always_read_timeout (calls world0) ''https://example.org/'' 5)
   \<and> fst (safe_api_request always_read_timeout ''https://example.org/'' 5 world0)
      = Inr (failure ''Request timed out after 5 seconds.'')
   \<and> attempt_handled (undecodable_body (calls world0) ''https://example.org/'' 5)
   \<and> fst (safe_api_request undecodable_body ''https://example.org/'' 5 world0)
      = Inr (failure ''Request failed: Expecting value: line 1 column 1 (char 0)'')
   \<and> \<not> attempt_handled (refuses_timeout (calls world0) ''https://example.org/'' 0)
   \<and> (\<nexists>v. fst (safe_api_request refuses_timeout ''https://example.org/'' 0 world0) = Inr v)"
  using no_request_exception_propagates
          [of always_read_timeout "''https://example.org/''" 5 world0 3]
        no_request_exception_propagates
          [of undecodable_body "''https://example.org/''" 5 world0 3]
        no_request_exception_propagates
          [of refuses_timeout "''https://example.org/''" 0 world0 3]
  by (simp add: safe_api_request_def request_body_def requests_get_def raise_for_status_def
        response_json_def always_read_timeout_def undecodable_body_def refuses_timeout_def
        world0_def attempt_handled_def body_result_def
        logging_info_def Let_def failure_def str_int_values)

text \<open>
  Claim C7, as stated, fails. A connect timeout is an instance of \<^verbatim>\<open>Timeout\<close> and of
  \<^verbatim>\<open>ConnectionError\<close>; the clause \<^verbatim>\<open>except ConnectionError\<close> comes first, so the failure
  message is \<^verbatim>\<open>Connection failed. Check your internet.\<close>, without the timeout value. And
  \<^verbatim>\<open>raise_for_status\<close> raises for the statuses 400 to 599 only: a response with status 600
  is a success.
\<close>

theorem timeout_and_status_counterexample:
  "isinstance (RequestsError ConnectTimeout ''Connection timed out.'' None) Timeout
   \<and> fst (safe_api_request connect_timeout ''https://example.org/'' 5 world0)
       = Inr (failure ''Connection failed. Check your internet.'')
   \<and> \<not> sublist (str_int 5) ''Connection failed. Check your internet.''
   \<and> fst (safe_api_request status_600 ''https://example.org/'' 5 world0)
       = Inr (success (PDict []))"
  by (simp add: safe_api_request_def request_body_def requests_get_def raise_for_status_def
        response_json_def connect_timeout_def status_600_def world0_def
        logging_info_def Let_def failure_def success_def str_int_values sublist_Cons_right)

text \<open>
  Claim C7, amended: for every single attempt, if the transport raises a timeout that is
  not also a connection error (a read timeout), the result is the failure
  \<^verbatim>\<open>Request timed out after <timeout> seconds.\<close>, which contains the timeout value used; and
  if the transport returns a response with a status code from 400 to 599 (404, say), the
  result is the failure \<^verbatim>\<open>HTTP Error: <status code>\<close>, which contains the numeric status
  code.
\<close>

theorem timeout_and_http_error_messages:
  "(\<forall>e. get (calls w) url timeout = Raises e \<and> isinstance e Timeout
         \<and> \<not> isinstance e ConnectionError
      \<longrightarrow> fst (safe_api_request get url timeout w) =
            Inr (failure (''Request timed out after '' @ str_int timeout @ '' seconds.''))
          \<and> sublist (str_int timeout)
               (''Request timed out after '' @ str_int timeout @ '' seconds.''))
   \<and> (\<forall>r. get (calls w) url timeout = Returns r \<and> 400 \<le> status_code r \<and> status_code r < 600
      \<longrightarrow> fst (safe_api_request get url timeout w) =
            Inr (failure (''HTTP Error: '' @ str_int (status_code r)))
          \<and> sublist (str_int (status_code r)) (''HTTP Error: '' @ str_int (status_code r)))"
proof (intro conjI allI impI)
  fix e
  assume a: "get (calls w) url timeout = Raises e \<and> isinstance e Timeout
         \<and> \<not> isinstance e ConnectionError"
  then obtain k m resp where e: "e = RequestsError k m resp"
    by (cases e) auto
  with a have "body_result (get (calls w) url timeout) = Inl (RequestsError k m resp)"
    by (simp add: body_result_def)
  from safe_api_request_handles
         [where get = get and w = w and url = url and timeout = timeout] this a e
  show "fst (safe_api_request get url timeout w) =
            Inr (failure (''Request timed out after '' @ str_int timeout @ '' seconds.''))"
    by simp
next
  fix e
  show "sublist (str_int timeout) (''Request timed out after '' @ str_int timeout @ '' seconds.'')"
    by (rule sublist_appendI)
next
  fix r
  assume "get (calls w) url timeout = Returns r \<and> 400 \<le> status_code r \<and> status_code r < 600"
  then show "fst (safe_api_request get url timeout w) =
            Inr (failure (''HTTP Error: '' @ str_int (status_code r)))"
    using safe_api_request_http_error [of get w url timeout r] by simp
next
  fix r
  show "sublist (str_int (status_code r)) (''HTTP Error: '' @ str_int (status_code r))"
    by (rule sublist_append_leftI)
qed

text \<open>The theorem for a read timeout with the timeout 5, and for the status 404.\<close>

theorem timeout_and_http_error_messages_witness:
  "fst (safe_api_request always_read_timeout ''https://example.org/'' 5 world0)
      = Inr (failure ''Request timed out after 5 seconds.'')
   \<and> sublist ''5'' ''Request timed out after 5 seconds.''
   \<and> fst (safe_api_request not_found ''https://example.org/'' 5 world0)
      = Inr (failure ''HTTP Error: 404'')
   \<and> sublist ''404'' ''HTTP Error: 404''"
  using timeout_and_http_error_messages [of always_read_timeout world0 "''https://example.org/''" 5]
        timeout_and_http_error_messages [of not_found world0 "''https://example.org/''" 5]
  by (simp add: always_read_timeout_def not_found_def str_int_values)

text \<open>
  Claim C9: every value the single-attempt executor returns, and every value other than
  \<^verbatim>\<open>None\<close> the retrying executor returns, is a mapping with the key \<^verbatim>\<open>success\<close>; it has the
  key \<^verbatim>\<open>data\<close> if and only if \<^verbatim>\<open>success\<close> maps to true, and the key \<^verbatim>\<open>error\<close> if and only if
  \<^verbatim>\<open>success\<close> maps to false. The retrying executor returns \<^verbatim>\<open>None\<close> exactly when the retry
  count is 0 or less.
\<close>

theorem result_mapping_invariant:
  "(\<forall>v. fst (safe_api_request get url timeout w) = Inr v \<longrightarrow> result_invariant v)
   \<and> (\<forall>v. fst (safe_api_request_with_retry get url timeout retries w) = Inr v \<and> v \<noteq> PNone
         \<longrightarrow> result_invariant v)
   \<and> (fst (safe_api_request_with_retry get url timeout retries w) = Inr PNone
         \<longleftrightarrow> retries \<le> 0)"
proof (intro conjI allI impI)
  fix v assume a: "fst (safe_api_request get url timeout w) = Inr v"
  show "result_invariant v"
  proof (cases "body_result (get (calls w) url timeout)")
    case (Inr u)
    then have "result_invariant u"
      by (auto simp: body_result_def split: outcome.splits sum.splits)
    with safe_api_request_returns
           [where get = get and w = w and url = url and timeout = timeout] Inr a
    show ?thesis by simp
  next
    case (Inl e)
    show ?thesis
    proof (cases e)
      case (RequestsError k m resp)
      with safe_api_request_handles
             [where get = get and w = w and url = url and timeout = timeout
                and k = k and m = m and resp = resp] Inl a
      show ?thesis by (auto simp: failure_def split: if_splits option.splits)
    qed (use Inl a safe_api_request_builtin [of get w url timeout e] in auto)
  qed
next
  fix v
  assume "fst (safe_api_request_with_retry get url timeout retries w) = Inr v \<and> v \<noteq> PNone"
  then show "result_invariant v"
    using retry_loop_invariant [of get url timeout retries "[1..retries]" w v]
    by (simp add: safe_api_request_with_retry_def)
next
  show "fst (safe_api_request_with_retry get url timeout retries w) = Inr PNone
          \<longleftrightarrow> retries \<le> 0"
  proof (cases "retries \<le> 0")
    case True
    then show ?thesis by (simp add: safe_api_request_with_retry_def)
  next
    case False
    then have "[1..retries] = [1..retries - 1] @ [retries]" by (simp add: upto_rec2)
    then have "[1..retries] \<noteq> []" "last [1..retries] = retries" by simp_all
    from retry_loop_not_none [OF this, of get url timeout w] False
    show ?thesis by (simp add: safe_api_request_with_retry_def)
  qed
qed

text \<open>The theorem for a 404 response and for a success on the third of three attempts.\<close>

theorem result_mapping_invariant_witness:
  "fst (safe_api_request not_found ''https://example.org/'' 5 world0)
      = Inr (failure ''HTTP Error: 404'')
   \<and> result_invariant (failure ''HTTP Error: 404'')
   \<and> fst (safe_api_request_with_retry fails_twice_then_succeeds ''https://example.org/'' 5 3 world0)
        = Inr (success (PDict [(''id'', PInt 1)]))
   \<and> result_invariant (success (PDict [(''id'', PInt 1)]))"
  using result_mapping_invariant [of not_found "''https://example.org/''" 5 world0 3]
        result_mapping_invariant [of fails_twice_then_succeeds "''https://example.org/''" 5 world0 3]
  by (simp add: safe_api_request_def request_body_def requests_get_def raise_for_status_def
        response_json_def not_found_def fails_twice_then_succeeds_def world0_def
        logging_info_def logging_error_def logging_warning_def time_sleep_def
        Let_def failure_def success_def str_int_values py_format_int_small
        safe_api_request_with_retry_def upto_rec1)

end
